theory Spec2Isabelle
  imports Complex_Main "HOL-Library.AList" "HOL-Library.Multiset"
begin

section \<open>The exporter of \<^verbatim>\<open>src/main.py\<close>\<close>

text \<open>
  The exporter polls a PDU for an XML document and writes its fields into Prometheus
  instruments. The embedding follows \<^verbatim>\<open>class Exporter\<close> method by method. What the
  methods take from libraries is modelled as follows.
  \<^item> An \<^verbatim>\<open>xml.etree.ElementTree.Element\<close> is a tag, an attribute dictionary and a list
    of children.
  \<^item> \<^verbatim>\<open>requests.get\<close> either returns a response or raises; the text of a response is
    either a well-formed document, given as the element \<^verbatim>\<open>ET.fromstring\<close> returns for it,
    or not well-formed, where \<^verbatim>\<open>ET.fromstring\<close> raises \<^verbatim>\<open>ParseError\<close>.
  \<^item> The builtin \<^verbatim>\<open>float\<close> is a parameter \<open>pyfloat\<close> of the functions that call it:
    \<open>None\<close> stands for \<^verbatim>\<open>ValueError\<close>. The type \<open>'v\<close> of gauge values has a zero, the
    value of a freshly created gauge child.
  \<^item> A \<^verbatim>\<open>prometheus_client\<close> metric is its name, documentation, label names and the
    children created so far, keyed by the tuple of label values.
  \<^item> The logger is the list of records emitted so far.
  \<^item> An exception is a value: every function that can raise returns the exception, if
    any, next to the state reached when it was raised.
\<close>

subsection \<open>Elements\<close>

datatype element =
  Element (tag: string) (attrib: "(string \<times> string) list") (children: "element list")

text \<open>\<^verbatim>\<open>Element.find(tag)\<close>: the first direct child with that tag, or \<^verbatim>\<open>None\<close>.\<close>

definition find_elem :: "string \<Rightarrow> element \<Rightarrow> element option" where
  "find_elem t el = List.find (\<lambda>c. tag c = t) (children el)"

text \<open>The truth value of an element is that of \<^verbatim>\<open>len(element) != 0\<close>: it has children.\<close>

definition element_bool :: "element \<Rightarrow> bool" where
  "element_bool el \<longleftrightarrow> children el \<noteq> []"

subsection \<open>Exceptions, log records, dictionaries\<close>

datatype py_error =
  KeyError string | ValueError | TypeError | UnboundLocalError | ParseError | ReadTimeout

datatype level = INFO | WARNING

type_synonym log_record = "level \<times> string"

type_synonym labeldict = "(string \<times> string) list"

text \<open>
  The comprehension \<^verbatim>\<open>{label: d[label] for label in labels}\<close>: the first label missing
  from \<open>d\<close> raises \<^verbatim>\<open>KeyError\<close>.
\<close>

fun label_dict :: "string list \<Rightarrow> (string \<times> string) list \<Rightarrow> py_error + labeldict" where
  "label_dict [] d = Inr []"
| "label_dict (l # ls) d =
     (case map_of d l of
        None \<Rightarrow> Inl (KeyError l)
      | Some v \<Rightarrow>
         (case label_dict ls d of
            Inl err \<Rightarrow> Inl err
          | Inr r \<Rightarrow> Inr ((l, v) # filter (\<lambda>p. fst p \<noteq> l) r)))"

text \<open>
  The display \<^verbatim>\<open>{**a, **b}\<close>: the items of \<open>a\<close>, then those of \<open>b\<close>, are assigned in
  order to an empty dictionary; assigning to a key that is present replaces its value.
\<close>

definition dict_merge :: "labeldict \<Rightarrow> labeldict \<Rightarrow> labeldict" where
  "dict_merge a b = fold (\<lambda>(k, v). AList.update k v) (a @ b) []"

text \<open>\<^verbatim>\<open>list.index\<close>, which raises \<^verbatim>\<open>ValueError\<close> when the value is not in the list.\<close>

fun index_of :: "'a \<Rightarrow> 'a list \<Rightarrow> nat option" where
  "index_of x [] = None"
| "index_of x (y # ys) = (if x = y then Some 0 else map_option Suc (index_of x ys))"

subsection \<open>Metrics\<close>

type_synonym labelvalues = "string list"

record 'v metric =
  metric_name :: string
  documentation :: string
  labelnames :: "string list"
  samples :: "labelvalues \<rightharpoonup> 'v"

text \<open>An \<^verbatim>\<open>Enum\<close> is a metric whose children hold the index of the current state.\<close>

record enum = "nat metric" +
  states :: "string list"

definition Gauge :: "string \<Rightarrow> string \<Rightarrow> string list \<Rightarrow> 'v metric" where
  "Gauge n d ls = \<lparr>metric_name = n, documentation = d, labelnames = ls, samples = Map.empty\<rparr>"

definition Enum :: "string \<Rightarrow> string \<Rightarrow> string list \<Rightarrow> string list \<Rightarrow> enum" where
  "Enum n d ls sts =
     \<lparr>metric_name = n, documentation = d, labelnames = ls, samples = Map.empty, states = sts\<rparr>"

text \<open>
  \<^verbatim>\<open>metric.labels(**kw)\<close>: raises \<^verbatim>\<open>ValueError\<close> when the metric has no label names or
  when \<^verbatim>\<open>sorted(kw) != sorted(labelnames)\<close>; otherwise the label values are read off \<open>kw\<close>
  in the order of the label names, and the child at these values is created, with value
  zero, unless it exists. The result is the key of the child and the metric holding it.
\<close>

definition label_values :: "string list \<Rightarrow> labeldict \<Rightarrow> labelvalues" where
  "label_values names kw = map (\<lambda>l. case map_of kw l of Some v \<Rightarrow> v | None \<Rightarrow> []) names"

definition labels ::
  "('v::zero, 'z) metric_scheme \<Rightarrow> labeldict \<Rightarrow> py_error + (labelvalues \<times> ('v, 'z) metric_scheme)"
where
  "labels m kw =
     (if labelnames m = [] then Inl ValueError
      else if mset (map fst kw) = mset (labelnames m) then
        (let lv = label_values (labelnames m) kw
         in Inr (lv, case samples m lv of
                       None \<Rightarrow> m\<lparr>samples := (samples m)(lv \<mapsto> 0)\<rparr>
                     | Some _ \<Rightarrow> m))
      else Inl ValueError)"

text \<open>\<^verbatim>\<open>Gauge.set\<close> on the child at \<open>lv\<close>.\<close>

definition gauge_set :: "labelvalues \<Rightarrow> 'v \<Rightarrow> ('v, 'z) metric_scheme \<Rightarrow> ('v, 'z) metric_scheme" where
  "gauge_set lv v m = m\<lparr>samples := (samples m)(lv \<mapsto> v)\<rparr>"

text \<open>
  \<^verbatim>\<open>Enum.state\<close> on the child at \<open>lv\<close>: \<^verbatim>\<open>self._value = self._states.index(state)\<close>.
\<close>

definition enum_state :: "labelvalues \<Rightarrow> string \<Rightarrow> enum \<Rightarrow> py_error + enum" where
  "enum_state lv s m =
     (case index_of s (states m) of
        None \<Rightarrow> Inl ValueError
      | Some i \<Rightarrow> Inr (m\<lparr>samples := (samples m)(lv \<mapsto> i)\<rparr>))"

subsection \<open>The exporter and its constructor\<close>

record 'v exporter =
  device_metrics :: "string \<rightharpoonup> 'v metric"
  outlet_metrics :: "(string \<times> 'v metric) list"
  outlet_status :: enum
  logger :: "log_record list"

definition device_labels :: "string list" where
  "device_labels = [''id'', ''type'']"

definition outlet_labels :: "string list" where
  "outlet_labels = [''name'', ''num'', ''url'']"

text \<open>
  \<^verbatim>\<open>Exporter.__init__\<close>. The dictionary \<^verbatim>\<open>device_metrics\<close> is only ever read with
  \<^verbatim>\<open>get\<close>, so it is a map; \<^verbatim>\<open>outlet_metrics\<close> is iterated, so it keeps its order.
  Address, port and the two intervals only reach \<^verbatim>\<open>requests.get\<close> and \<^verbatim>\<open>time.sleep\<close>.
\<close>

definition init_exporter :: "'v exporter" where
  "init_exporter =
     \<lparr>device_metrics = map_of
        [(''KWatt-hrs-Total'', Gauge ''pdu_kwh_total'' ''Total device KWh'' device_labels),
         (''KWatt-hrs-A'', Gauge ''pdu_kwh'' ''Device KWh'' device_labels),
         (''RealPower-Total'', Gauge ''pdu_realpower_total'' ''Device RealPower'' device_labels),
         (''RealPower-A'', Gauge ''pdu_realpower'' ''Device realpower'' device_labels),
         (''Volts-A'', Gauge ''pdu_volts'' ''Device voltage'' device_labels),
         (''Volt-Pk-A'', Gauge ''pdu_volts_peak'' ''Device peak voltage'' device_labels),
         (''Amps-A'', Gauge ''pdu_amps'' ''Device amperage'' device_labels),
         (''Amps-Pk-A'', Gauge ''pdu_amps_peak'' ''Device peak amperage'' device_labels),
         (''ApPower-A'', Gauge ''pdu_apparent_power'' ''Device apparent power'' device_labels),
         (''Pwr-Factor%-A'',
            Gauge ''pdu_power_factor_percent'' ''Power Factor Percentage'' device_labels)],
      outlet_metrics =
        [(''amps'', Gauge ''pdu_outlet_amps'' ''Outlet Amperage'' (outlet_labels @ device_labels)),
         (''kwatthrs'',
            Gauge ''pdu_outlet_kwh_total'' ''Outlet Total KWh'' (outlet_labels @ device_labels)),
         (''watts'', Gauge ''pdu_outlet_watts'' ''Outlet Watts'' (outlet_labels @ device_labels))],
      outlet_status =
        Enum ''pdu_outlet_status'' ''Outlet status'' (outlet_labels @ device_labels)
          [''On'', ''Off''],
      logger = []\<rparr>"

definition info :: "string \<Rightarrow> 'v exporter \<Rightarrow> 'v exporter" where
  "info msg e = e\<lparr>logger := logger e @ [(INFO, msg)]\<rparr>"

definition warn :: "string \<Rightarrow> 'v exporter \<Rightarrow> 'v exporter" where
  "warn msg e = e\<lparr>logger := logger e @ [(WARNING, msg)]\<rparr>"

subsection \<open>Loops\<close>

text \<open>
  A \<^verbatim>\<open>for\<close> loop whose body may raise: the first exception ends the loop, in the state
  reached when it was raised.
\<close>

fun for_each :: "('a \<Rightarrow> 's \<Rightarrow> py_error option \<times> 's) \<Rightarrow> 'a list \<Rightarrow> 's \<Rightarrow> py_error option \<times> 's" where
  "for_each body [] e = (None, e)"
| "for_each body (x # xs) e =
     (case body x e of
        (Some err, e') \<Rightarrow> (Some err, e')
      | (None, e') \<Rightarrow> for_each body xs e')"

subsection \<open>\<^verbatim>\<open>Exporter.process_outlet\<close>\<close>

text \<open>Lines 132 and 133: the outlet's labels, merged with the device's.\<close>

definition outlet_kwargs :: "element \<Rightarrow> labeldict \<Rightarrow> py_error + labeldict" where
  "outlet_kwargs outlet dl =
     (case label_dict outlet_labels (attrib outlet) of
        Inl err \<Rightarrow> Inl err
      | Inr ol \<Rightarrow> Inr (dict_merge ol dl))"

text \<open>
  Lines 135 and 136, the loop over \<^verbatim>\<open>self.outlet_metrics.items()\<close>. In
  \<^verbatim>\<open>metric.labels(**kw).set(float(outlet.attrib[attr]))\<close> the call of \<^verbatim>\<open>labels\<close> comes
  first, so the child exists when the attribute is missing or is no number.
\<close>

fun outlet_gauges ::
  "(string \<Rightarrow> 'v option) \<Rightarrow> element \<Rightarrow> labeldict \<Rightarrow> (string \<times> 'v::zero metric) list \<Rightarrow>
     py_error option \<times> (string \<times> 'v metric) list"
where
  "outlet_gauges pyfloat outlet kw [] = (None, [])"
| "outlet_gauges pyfloat outlet kw ((attr, metric) # items) =
     (case labels metric kw of
        Inl err \<Rightarrow> (Some err, (attr, metric) # items)
      | Inr (lv, metric') \<Rightarrow>
         (case map_of (attrib outlet) attr of
            None \<Rightarrow> (Some (KeyError attr), (attr, metric') # items)
          | Some s \<Rightarrow>
             (case pyfloat s of
                None \<Rightarrow> (Some ValueError, (attr, metric') # items)
              | Some v \<Rightarrow>
                 (case outlet_gauges pyfloat outlet kw items of
                    (r, items') \<Rightarrow> (r, (attr, gauge_set lv v metric') # items')))))"

definition process_outlet ::
  "(string \<Rightarrow> 'v option) \<Rightarrow> labeldict \<Rightarrow> element \<Rightarrow> 'v::zero exporter \<Rightarrow>
     py_error option \<times> 'v exporter"
where
  "process_outlet pyfloat dl outlet e =
     (case map_of (attrib outlet) ''num'' of
        None \<Rightarrow> (Some (KeyError ''num''), e)
      | Some num \<Rightarrow>
         (let e1 = info (''Processsing outlet '' @ num) e in
          case outlet_kwargs outlet dl of
            Inl err \<Rightarrow> (Some err, e1)
          | Inr kw \<Rightarrow>
             (case outlet_gauges pyfloat outlet kw (outlet_metrics e1) of
                (Some err, items) \<Rightarrow> (Some err, e1\<lparr>outlet_metrics := items\<rparr>)
              | (None, items) \<Rightarrow>
                 (let e2 = e1\<lparr>outlet_metrics := items\<rparr> in
                  case labels (outlet_status e2) kw of
                    Inl err \<Rightarrow> (Some err, e2)
                  | Inr (lv, st) \<Rightarrow>
                     (case map_of (attrib outlet) ''status'' of
                        None \<Rightarrow> (Some (KeyError ''status''), e2\<lparr>outlet_status := st\<rparr>)
                      | Some s \<Rightarrow>
                         (case enum_state lv s st of
                            Inl err \<Rightarrow> (Some err, e2\<lparr>outlet_status := st\<rparr>)
                          | Inr st' \<Rightarrow> (None, e2\<lparr>outlet_status := st'\<rparr>)))))))"

subsection \<open>\<^verbatim>\<open>Exporter.process_device\<close>\<close>

text \<open>Lines 120 to 125, the body of the loop over the children of the device.\<close>

definition device_child ::
  "(string \<Rightarrow> 'v option) \<Rightarrow> labeldict \<Rightarrow> element \<Rightarrow> 'v::zero exporter \<Rightarrow>
     py_error option \<times> 'v exporter"
where
  "device_child pyfloat dl child e =
     (if tag child \<noteq> ''field'' then (None, e)
      else
        (case map_of (attrib child) ''key'' of
           None \<Rightarrow> (Some (KeyError ''key''), e)
         | Some key \<Rightarrow>
            (case device_metrics e key of
               None \<Rightarrow> (None, e)
             | Some metric \<Rightarrow>
                (case labels metric dl of
                   Inl err \<Rightarrow> (Some err, e)
                 | Inr (lv, metric') \<Rightarrow>
                    (let e1 = e\<lparr>device_metrics := (device_metrics e)(key \<mapsto> metric')\<rparr> in
                     case map_of (attrib child) ''value'' of
                       None \<Rightarrow> (Some (KeyError ''value''), e1)
                     | Some s \<Rightarrow>
                        (case pyfloat s of
                           None \<Rightarrow> (Some ValueError, e1)
                         | Some v \<Rightarrow>
                            (None, e1\<lparr>device_metrics :=
                                        (device_metrics e1)(key \<mapsto> gauge_set lv v metric')\<rparr>)))))))"

definition process_device ::
  "(string \<Rightarrow> 'v option) \<Rightarrow> element \<Rightarrow> 'v::zero exporter \<Rightarrow> py_error option \<times> 'v exporter"
where
  "process_device pyfloat device e =
     (case map_of (attrib device) ''type'' of
        None \<Rightarrow> (Some (KeyError ''type''), e)
      | Some t \<Rightarrow>
         (let e1 = info (''Processsing device '' @ t) e in
          case find_elem ''outlets'' device of
            None \<Rightarrow> (None, e1)
          | Some outlets \<Rightarrow>
             if \<not> element_bool outlets then (None, e1)
             else
               (case label_dict device_labels (attrib device) of
                  Inl err \<Rightarrow> (Some err, e1)
                | Inr dl \<Rightarrow>
                   (case for_each (device_child pyfloat dl) (children device) e1 of
                      (Some err, e2) \<Rightarrow> (Some err, e2)
                    | (None, e2) \<Rightarrow>
                       for_each (process_outlet pyfloat dl) (children outlets) e2))))"

subsection \<open>\<^verbatim>\<open>Exporter.fetch\<close>, \<^verbatim>\<open>Exporter.process\<close> and the polling loop\<close>

datatype body = WellFormed element | NotWellFormed

datatype http_result =
  Returns body | RaisesConnectionError "string option" | RaisesReadTimeout

text \<open>
  \<^verbatim>\<open>fetch\<close> catches \<^verbatim>\<open>requests.ConnectionError\<close> only, logs \<^verbatim>\<open>e.strerror\<close> (a string or
  \<^verbatim>\<open>None\<close>) and goes on to line 149, where \<^verbatim>\<open>resp\<close> was never assigned. A read timeout
  is no \<^verbatim>\<open>ConnectionError\<close> and is not caught.
\<close>

definition fetch :: "http_result \<Rightarrow> 'v exporter \<Rightarrow> (py_error + element) \<times> 'v exporter" where
  "fetch http e =
     (case http of
        RaisesConnectionError strerror \<Rightarrow>
          (Inl UnboundLocalError,
           warn (''Exception while connecting to device: '' @
                 (case strerror of None \<Rightarrow> ''None'' | Some s \<Rightarrow> s)) e)
      | RaisesReadTimeout \<Rightarrow> (Inl ReadTimeout, e)
      | Returns NotWellFormed \<Rightarrow> (Inl ParseError, e)
      | Returns (WellFormed tree) \<Rightarrow> (Inr tree, e))"

text \<open>
  \<^verbatim>\<open>process\<close>: iterating over \<^verbatim>\<open>root.find("devices")\<close> raises \<^verbatim>\<open>TypeError\<close> when it is
  \<^verbatim>\<open>None\<close>.
\<close>

definition process ::
  "(string \<Rightarrow> 'v option) \<Rightarrow> http_result \<Rightarrow> 'v::zero exporter \<Rightarrow> py_error option \<times> 'v exporter"
where
  "process pyfloat http e =
     (case fetch http (info ''Starting process..'' e) of
        (Inl err, e1) \<Rightarrow> (Some err, e1)
      | (Inr tree, e1) \<Rightarrow>
         (case find_elem ''devices'' tree of
            None \<Rightarrow> (Some TypeError, e1)
          | Some devices \<Rightarrow> for_each (process_device pyfloat) (children devices) e1))"

text \<open>
  \<^verbatim>\<open>start_export_loop\<close> never returns normally. A cycle is what \<^verbatim>\<open>requests.get\<close> does
  in it and the elapsed time as \<^verbatim>\<open>{end-start:.2f}\<close> prints it; the loop is run on the
  list of cycles that happen. The result \<open>None\<close> says that the loop is still running
  after them, \<open>Some err\<close> that the exception left the loop.
\<close>

definition cycle ::
  "(string \<Rightarrow> 'v option) \<Rightarrow> http_result \<times> string \<Rightarrow> 'v::zero exporter \<Rightarrow>
     py_error option \<times> 'v exporter"
where
  "cycle pyfloat c e =
     (case process pyfloat (fst c) e of
        (Some err, e1) \<Rightarrow> (Some err, e1)
      | (None, e1) \<Rightarrow> (None, info (''Process completed in '' @ snd c @ ''s'') e1))"

definition start_export_loop ::
  "(string \<Rightarrow> 'v option) \<Rightarrow> (http_result \<times> string) list \<Rightarrow> 'v::zero exporter \<Rightarrow>
     py_error option \<times> 'v exporter"
where
  "start_export_loop pyfloat cycles e = for_each (cycle pyfloat) cycles e"

subsection \<open>Sample inputs\<close>

text \<open>
  An instance of \<open>pyfloat\<close> for the examples: on a plain decimal numeral, with an optional
  sign, it returns the number the numeral denotes, and \<open>None\<close> on anything else. The
  builtin accepts more (exponents, blanks, \<^verbatim>\<open>inf\<close>) and rounds to a double; the theorems
  below hold for every \<open>pyfloat\<close> and use this one at concrete inputs only.
\<close>

fun digits :: "string \<Rightarrow> nat \<Rightarrow> nat option" where
  "digits [] acc = Some acc"
| "digits (c # cs) acc =
     (case index_of c ''0123456789'' of
        None \<Rightarrow> None
      | Some d \<Rightarrow> digits cs (10 * acc + d))"

definition unsigned_decimal :: "string \<Rightarrow> real option" where
  "unsigned_decimal s =
     (let ip = takeWhile (\<lambda>c. c \<noteq> CHR ''.'') s;
          fp = drop 1 (dropWhile (\<lambda>c. c \<noteq> CHR ''.'') s)
      in if ip = [] \<and> fp = [] then None
         else
           (case (digits ip 0, digits fp 0) of
              (Some i, Some f) \<Rightarrow> Some (real i + real f / 10 ^ length fp)
            | _ \<Rightarrow> None))"

definition decimal_float :: "string \<Rightarrow> real option" where
  "decimal_float s =
     (case s of
        [] \<Rightarrow> None
      | c # cs \<Rightarrow>
         if c = CHR ''-'' then map_option uminus (unsigned_decimal cs)
         else if c = CHR ''+'' then unsigned_decimal cs
         else unsigned_decimal s)"

text \<open>
  Two outlets with every attribute, the first of them without \<^verbatim>\<open>amps\<close>, the first of
  them with a status that is no state of the instrument, and two fields.
\<close>

definition outlet_A :: element where
  "outlet_A = Element ''outlet''
     [(''name'', ''A''), (''num'', ''1''), (''url'', ''u1''), (''amps'', ''0.5''),
      (''kwatthrs'', ''2.25''), (''watts'', ''60''), (''status'', ''On'')] []"

definition outlet_B :: element where
  "outlet_B = Element ''outlet''
     [(''name'', ''B''), (''num'', ''2''), (''url'', ''u2''), (''amps'', ''1.5''),
      (''kwatthrs'', ''3''), (''watts'', ''180''), (''status'', ''Off'')] []"

definition outlet_no_amps :: element where
  "outlet_no_amps = Element ''outlet''
     [(''name'', ''A''), (''num'', ''1''), (''url'', ''u1''),
      (''kwatthrs'', ''2.25''), (''watts'', ''60''), (''status'', ''On'')] []"

definition outlet_standby :: element where
  "outlet_standby = Element ''outlet''
     [(''name'', ''A''), (''num'', ''1''), (''url'', ''u1''), (''amps'', ''0.5''),
      (''kwatthrs'', ''2.25''), (''watts'', ''60''), (''status'', ''Standby'')] []"

definition realpower_field :: element where
  "realpower_field = Element ''field'' [(''key'', ''RealPower-A''), (''value'', ''123.4'')] []"

definition foo_field :: element where
  "foo_field = Element ''field'' [(''key'', ''Foo-Bar''), (''value'', ''1'')] []"

text \<open>
  A device \<^verbatim>\<open>id="1" type="pdu"\<close> with the given children, the document holding just
  this device, and an \<^verbatim>\<open>outlets\<close> container.
\<close>

definition device_of :: "element list \<Rightarrow> element" where
  "device_of cs = Element ''device'' [(''id'', ''1''), (''type'', ''pdu'')] cs"

definition document :: "element list \<Rightarrow> element" where
  "document cs = Element ''root'' [] [Element ''devices'' [] [device_of cs]]"

definition outlets_of :: "element list \<Rightarrow> element" where
  "outlets_of os = Element ''outlets'' [] os"

section \<open>Reading the state\<close>

text \<open>
  The instruments of an exporter, without its logger: what a scrape can see.
\<close>

definition instruments :: "'v exporter \<Rightarrow> (string \<rightharpoonup> 'v metric) \<times> (string \<times> 'v metric) list \<times> enum" where
  "instruments e = (device_metrics e, outlet_metrics e, outlet_status e)"

text \<open>The value of the device gauge stored under \<open>key\<close>, for the label values \<open>lv\<close>.\<close>

definition device_gauge :: "'v exporter \<Rightarrow> string \<Rightarrow> labelvalues \<Rightarrow> 'v option" where
  "device_gauge e key lv = (case device_metrics e key of None \<Rightarrow> None | Some m \<Rightarrow> samples m lv)"

text \<open>The value of the outlet gauge stored under \<open>attr\<close>, and the state of the status.\<close>

definition outlet_gauge :: "'v exporter \<Rightarrow> string \<Rightarrow> labelvalues \<Rightarrow> 'v option" where
  "outlet_gauge e attr lv = (case map_of (outlet_metrics e) attr of None \<Rightarrow> None | Some m \<Rightarrow> samples m lv)"

definition status_state :: "'v exporter \<Rightarrow> labelvalues \<Rightarrow> string option" where
  "status_state e lv =
     (case samples (outlet_status e) lv of
        None \<Rightarrow> None
      | Some i \<Rightarrow>
         if i < length (states (outlet_status e)) then Some (states (outlet_status e) ! i)
         else None)"

text \<open>The warnings logged so far.\<close>

definition warnings :: "'v exporter \<Rightarrow> log_record list" where
  "warnings e = filter (\<lambda>r. fst r = WARNING) (logger e)"

section \<open>Footprints\<close>

text \<open>
  What a run does to one child of one metric: nothing, \<^verbatim>\<open>labels\<close> only (the child is
  created with value zero unless it exists), or a write. The instruments are only ever
  changed child by child, so a run is described by one effect for every child; that the
  exporter's methods are of this kind is what makes a second run of the same document
  change nothing.
\<close>

datatype 'a effect = Untouched | Ensured | Written 'a

fun eff :: "'a::zero effect \<Rightarrow> 'a option \<Rightarrow> 'a option" where
  "eff Untouched y = y"
| "eff Ensured y = (case y of None \<Rightarrow> Some 0 | Some x \<Rightarrow> Some x)"
| "eff (Written v) y = Some v"

fun then_eff :: "'a effect \<Rightarrow> 'a effect \<Rightarrow> 'a effect" where
  "then_eff a Untouched = a"
| "then_eff Untouched Ensured = Ensured"
| "then_eff Ensured Ensured = Ensured"
| "then_eff (Written v) Ensured = Written v"
| "then_eff a (Written v) = Written v"

text \<open>
  \<open>touch w\<close> applies to every child of a metric the effect \<open>w\<close> gives it; \<open>only lv x\<close>
  is the effect \<open>x\<close> on the child at \<open>lv\<close> and nothing elsewhere; \<open>blank\<close> removes the
  children.
\<close>

definition touch :: "(labelvalues \<Rightarrow> 'v effect) \<Rightarrow> ('v::zero, 'z) metric_scheme \<Rightarrow> ('v, 'z) metric_scheme" where
  "touch w m = m\<lparr>samples := (\<lambda>lv. eff (w lv) (samples m lv))\<rparr>"

definition only :: "labelvalues \<Rightarrow> 'v effect \<Rightarrow> labelvalues \<Rightarrow> 'v effect" where
  "only lv x = (\<lambda>lv'. if lv' = lv then x else Untouched)"

definition blank :: "('v, 'z) metric_scheme \<Rightarrow> ('v, 'z) metric_scheme" where
  "blank m = m\<lparr>samples := Map.empty\<rparr>"

text \<open>
  A footprint gives the effects on the device gauges by key, on the outlet gauges by
  position in \<^verbatim>\<open>outlet_metrics\<close>, and on the status; applied to an exporter together
  with the records to log, it gives the exporter after the run.
\<close>

type_synonym 'v footprint =
  "(string \<Rightarrow> labelvalues \<Rightarrow> 'v effect) \<times> (labelvalues \<Rightarrow> 'v effect) list \<times> (labelvalues \<Rightarrow> nat effect)"

definition touch_items ::
  "(labelvalues \<Rightarrow> 'v effect) list \<Rightarrow> (string \<times> 'v::zero metric) list \<Rightarrow> (string \<times> 'v metric) list" where
  "touch_items wo items = map2 (\<lambda>w (k, m). (k, touch w m)) wo items"

definition apply_fp :: "'v footprint \<Rightarrow> log_record list \<Rightarrow> 'v::zero exporter \<Rightarrow> 'v exporter" where
  "apply_fp w l e =
     (case w of (wd, wo, ws) \<Rightarrow>
        e\<lparr>device_metrics := (\<lambda>k. map_option (touch (wd k)) (device_metrics e k)),
          outlet_metrics := touch_items wo (outlet_metrics e),
          outlet_status := touch ws (outlet_status e),
          logger := logger e @ l\<rparr>)"

text \<open>
  The shape of an exporter is its instruments with every child removed: the keys of the
  dictionaries and the name, documentation, label names and states of every metric.
  \<open>declared\<close> says that they are the ones \<^verbatim>\<open>__init__\<close> declares.
\<close>

definition shape :: "'v exporter \<Rightarrow> (string \<rightharpoonup> 'v metric) \<times> (string \<times> 'v metric) list \<times> enum" where
  "shape e =
     (\<lambda>k. map_option blank (device_metrics e k),
      map (\<lambda>(k, m). (k, blank m)) (outlet_metrics e),
      blank (outlet_status e))"

definition declared :: "'v exporter \<Rightarrow> bool" where
  "declared e \<longleftrightarrow> shape e = shape (init_exporter :: 'v exporter)"

text \<open>
  A step of the exporter is cellwise when, on all exporters of one shape, it raises the
  same exception or none, logs the same records and has the same footprint. \<open>bind\<close> is
  one step after another, the second only if the first did not raise.
\<close>

definition cellwise ::
  "(string \<rightharpoonup> 'v metric) \<times> (string \<times> 'v metric) list \<times> enum \<Rightarrow>
   ('v::zero exporter \<Rightarrow> py_error option \<times> 'v exporter) \<Rightarrow> bool" where
  "cellwise S F \<longleftrightarrow>
     (\<exists>r wd wo ws l. length wo = length (fst (snd S)) \<and>
        (\<forall>e. shape e = S \<longrightarrow> F e = (r, apply_fp (wd, wo, ws) l e)))"

definition bind :: "('s \<Rightarrow> py_error option \<times> 's) \<Rightarrow> ('s \<Rightarrow> py_error option \<times> 's) \<Rightarrow> 's \<Rightarrow> py_error option \<times> 's" where
  "bind F G e = (case F e of (Some err, e') \<Rightarrow> (Some err, e') | (None, e') \<Rightarrow> G e')"

section \<open>Lemmas on footprints\<close>

lemma eff_then: "eff b (eff a y) = eff (then_eff a b) y"
  by (cases a; cases b; cases y) simp_all

lemma eff_idem: "eff a (eff a y) = eff a y"
  by (cases a; cases y) simp_all

lemma touch_touch: "touch w2 (touch w1 m) = touch (\<lambda>lv. then_eff (w1 lv) (w2 lv)) m"
  by (simp add: touch_def eff_then)

lemma touch_idem: "touch w (touch w m) = touch w m"
  by (simp add: touch_def eff_idem)

lemma touch_Untouched: "touch (\<lambda>_. Untouched) m = m"
  by (simp add: touch_def)

lemma blank_touch: "blank (touch w m) = blank m"
  by (simp add: touch_def blank_def)

lemma labelnames_blank: "blank m = blank m' \<Longrightarrow> labelnames m = labelnames m'"
  by (metis blank_def metric.select_convs(3) metric.surjective metric.update_convs(4))

lemma gauge_set_touch: "gauge_set lv v m = touch (only lv (Written v)) m"
  by (simp add: gauge_set_def touch_def only_def fun_eq_iff)

lemma labels_touch:
  "labels m kw =
     (if labelnames m = [] then Inl ValueError
      else if mset (map fst kw) = mset (labelnames m)
        then Inr (label_values (labelnames m) kw, touch (only (label_values (labelnames m) kw) Ensured) m)
      else Inl ValueError)"
  by (auto simp: labels_def touch_def only_def Let_def fun_eq_iff split: option.splits intro!: metric.equality)

lemma enum_state_touch:
  "enum_state lv s m =
     (case index_of s (states m) of None \<Rightarrow> Inl ValueError
      | Some i \<Rightarrow> Inr (touch (only lv (Written i)) m))"
  by (simp add: enum_state_def touch_def only_def fun_eq_iff split: option.splits)

lemma touch_items_comp:
  "length w1 = length items \<Longrightarrow> length w2 = length items \<Longrightarrow>
   touch_items w2 (touch_items w1 items) =
   touch_items (map2 (\<lambda>a b lv. then_eff (a lv) (b lv)) w1 w2) items"
proof (induction items arbitrary: w1 w2)
  case Nil
  then show ?case by (simp add: touch_items_def)
next
  case (Cons x xs)
  then obtain a w1' b w2' where "w1 = a # w1'" "w2 = b # w2'"
    by (cases w1; cases w2) auto
  with Cons show ?case
    by (cases x) (simp add: touch_items_def touch_touch)
qed

lemma touch_items_id: "touch_items (replicate (length items) (\<lambda>_. Untouched)) items = items"
  by (induction items) (auto simp: touch_items_def touch_Untouched)

lemma blank_touch_items:
  "length wo = length items \<Longrightarrow>
   map (\<lambda>(k, m). (k, blank m)) (touch_items wo items) = map (\<lambda>(k, m). (k, blank m)) items"
proof (induction items arbitrary: wo)
  case Nil
  then show ?case by (simp add: touch_items_def)
next
  case (Cons x xs)
  then obtain a wo' where "wo = a # wo'" by (cases wo) auto
  with Cons show ?case by (cases x) (simp add: touch_items_def blank_touch)
qed

lemma touch_items_idem:
  "length wo = length items \<Longrightarrow> touch_items wo (touch_items wo items) = touch_items wo items"
proof (induction items arbitrary: wo)
  case Nil
  then show ?case by (simp add: touch_items_def)
next
  case (Cons x xs)
  then obtain a wo' where "wo = a # wo'" by (cases wo) auto
  with Cons show ?case by (cases x) (simp add: touch_items_def touch_idem)
qed

lemma shape_apply_fp:
  "length wo = length (outlet_metrics e) \<Longrightarrow> shape (apply_fp (wd, wo, ws) l e) = shape e"
  by (simp add: shape_def apply_fp_def blank_touch blank_touch_items fun_eq_iff option.map_comp comp_def)

lemma length_shape: "shape e = S \<Longrightarrow> length (fst (snd S)) = length (outlet_metrics e)"
  by (auto simp: shape_def)

lemma apply_fp_comp:
  "length wo1 = length (outlet_metrics e) \<Longrightarrow> length wo2 = length (outlet_metrics e) \<Longrightarrow>
   apply_fp (wd2, wo2, ws2) l2 (apply_fp (wd1, wo1, ws1) l1 e) =
   apply_fp (\<lambda>k lv. then_eff (wd1 k lv) (wd2 k lv),
             map2 (\<lambda>a b lv. then_eff (a lv) (b lv)) wo1 wo2,
             \<lambda>lv. then_eff (ws1 lv) (ws2 lv)) (l1 @ l2) e"
  by (simp add: apply_fp_def touch_touch touch_items_comp fun_eq_iff option.map_comp comp_def)

lemma apply_fp_id:
  "apply_fp (\<lambda>_ _. Untouched, replicate (length (outlet_metrics e)) (\<lambda>_. Untouched), \<lambda>_. Untouched) [] e = e"
proof -
  have "touch (\<lambda>_. Untouched) = (id :: 'a metric \<Rightarrow> 'a metric)"
    by (simp add: fun_eq_iff touch_Untouched)
  then show ?thesis
    by (simp add: apply_fp_def touch_Untouched touch_items_id option.map_id)
qed

lemma cellwiseI:
  "length wo = length (fst (snd S)) \<Longrightarrow>
   (\<And>e. shape e = S \<Longrightarrow> F e = (r, apply_fp (wd, wo, ws) l e)) \<Longrightarrow> cellwise S F"
  unfolding cellwise_def by blast

lemma cellwise_cong:
  "cellwise S G \<Longrightarrow> (\<And>e. shape e = S \<Longrightarrow> F e = G e) \<Longrightarrow> cellwise S F"
  unfolding cellwise_def by (metis (no_types, lifting))

lemma cellwise_return: "cellwise S (\<lambda>e. (r, e))"
proof (rule cellwiseI)
  show "length (replicate (length (fst (snd S))) (\<lambda>_. Untouched)) = length (fst (snd S))" by simp
next
  fix e :: "'a exporter" assume "shape e = S"
  then have "length (fst (snd S)) = length (outlet_metrics e)" by (rule length_shape)
  then show "(r, e) = (r, apply_fp (\<lambda>_ _. Untouched, replicate (length (fst (snd S))) (\<lambda>_. Untouched), \<lambda>_. Untouched) [] e)"
    by (simp add: apply_fp_id)
qed

lemma cellwise_bind:
  assumes "cellwise S F" "cellwise S G"
  shows "cellwise S (bind F G)"
proof -
  from assms(1) obtain r1 wd1 wo1 ws1 l1 where
    n1: "length wo1 = length (fst (snd S))" and
    F: "\<And>e. shape e = S \<Longrightarrow> F e = (r1, apply_fp (wd1, wo1, ws1) l1 e)"
    unfolding cellwise_def by blast
  from assms(2) obtain r2 wd2 wo2 ws2 l2 where
    n2: "length wo2 = length (fst (snd S))" and
    G: "\<And>e. shape e = S \<Longrightarrow> G e = (r2, apply_fp (wd2, wo2, ws2) l2 e)"
    unfolding cellwise_def by blast
  show ?thesis
  proof (cases r1)
    case (Some err)
    show ?thesis
      by (rule cellwiseI [OF n1, where r = r1 and wd = wd1 and ws = ws1 and l = l1])
         (simp add: bind_def F Some)
  next
    case None
    show ?thesis
    proof (rule cellwiseI)
      show "length (map2 (\<lambda>a b lv. then_eff (a lv) (b lv)) wo1 wo2) = length (fst (snd S))"
        using n1 n2 by simp
    next
      fix e :: "'a exporter" assume S: "shape e = S"
      then have n: "length (fst (snd S)) = length (outlet_metrics e)" by (rule length_shape)
      have "shape (apply_fp (wd1, wo1, ws1) l1 e) = S"
        using S n n1 by (simp add: shape_apply_fp)
      then have "G (apply_fp (wd1, wo1, ws1) l1 e) =
          (r2, apply_fp (wd2, wo2, ws2) l2 (apply_fp (wd1, wo1, ws1) l1 e))"
        by (rule G)
      then show "bind F G e =
          (r2, apply_fp (\<lambda>k lv. then_eff (wd1 k lv) (wd2 k lv),
             map2 (\<lambda>a b lv. then_eff (a lv) (b lv)) wo1 wo2,
             \<lambda>lv. then_eff (ws1 lv) (ws2 lv)) (l1 @ l2) e)"
        using n n1 n2 by (simp add: bind_def F [OF S] None apply_fp_comp)
    qed
  qed
qed

lemma for_each_bind: "for_each body (x # xs) = bind (body x) (for_each body xs)"
  by (simp add: bind_def fun_eq_iff)

lemma cellwise_for_each:
  "(\<And>x. cellwise S (body x)) \<Longrightarrow> cellwise S (for_each body xs)"
proof (induction xs)
  case Nil
  have "for_each body [] = (\<lambda>e. (None, e))" by (simp add: fun_eq_iff)
  then show ?case by (simp add: cellwise_return)
next
  case (Cons x xs)
  then show ?case by (simp only: for_each_bind cellwise_bind)
qed

lemma cellwise_idem:
  assumes "cellwise S F" "shape e = S"
  shows "instruments (snd (F (snd (F e)))) = instruments (snd (F e))"
proof -
  from assms(1) obtain r wd wo ws l where
    n: "length wo = length (fst (snd S))" and
    F: "\<And>e. shape e = S \<Longrightarrow> F e = (r, apply_fp (wd, wo, ws) l e)"
    unfolding cellwise_def by blast
  have m: "length wo = length (outlet_metrics e)"
    using n length_shape [OF assms(2)] by simp
  then have "shape (apply_fp (wd, wo, ws) l e) = S"
    using assms(2) by (simp add: shape_apply_fp)
  then show ?thesis
    using m by (simp add: F assms(2) instruments_def apply_fp_def touch_idem touch_items_idem
        fun_eq_iff option.map_comp comp_def)
qed

lemma cellwise_shape:
  assumes "cellwise S F" "shape e = S"
  shows "shape (snd (F e)) = S"
proof -
  from assms(1) obtain r wd wo ws l where
    n: "length wo = length (fst (snd S))" and
    F: "\<And>e. shape e = S \<Longrightarrow> F e = (r, apply_fp (wd, wo, ws) l e)"
    unfolding cellwise_def by blast
  have m: "length wo = length (outlet_metrics e)"
    using n length_shape [OF assms(2)] by simp
  then show ?thesis using assms(2) by (simp add: F shape_apply_fp)
qed

lemma map_option_touch_Untouched: "map_option (touch (\<lambda>_. Untouched)) x = x"
  by (cases x) (simp_all add: touch_Untouched)

lemma cellwise_info: "cellwise S (\<lambda>e. (r, info msg e))"
proof (rule cellwiseI)
  show "length (replicate (length (fst (snd S))) (\<lambda>_. Untouched)) = length (fst (snd S))" by simp
next
  fix e :: "'a exporter" assume "shape e = S"
  then have n: "length (fst (snd S)) = length (outlet_metrics e)" by (rule length_shape)
  have "touch (\<lambda>_. Untouched) = (id :: 'a metric \<Rightarrow> 'a metric)"
    by (simp add: fun_eq_iff touch_Untouched)
  then show "(r, info msg e) = (r, apply_fp (\<lambda>_ _. Untouched, replicate (length (fst (snd S))) (\<lambda>_. Untouched), \<lambda>_. Untouched) [(INFO, msg)] e)"
    using n by (simp add: apply_fp_def info_def touch_Untouched touch_items_id option.map_id)
qed

lemma cellwise_warn: "cellwise S (\<lambda>e. (r, warn msg e))"
proof (rule cellwiseI)
  show "length (replicate (length (fst (snd S))) (\<lambda>_. Untouched)) = length (fst (snd S))" by simp
next
  fix e :: "'a exporter" assume "shape e = S"
  then have n: "length (fst (snd S)) = length (outlet_metrics e)" by (rule length_shape)
  have "touch (\<lambda>_. Untouched) = (id :: 'a metric \<Rightarrow> 'a metric)"
    by (simp add: fun_eq_iff touch_Untouched)
  then show "(r, warn msg e) = (r, apply_fp (\<lambda>_ _. Untouched, replicate (length (fst (snd S))) (\<lambda>_. Untouched), \<lambda>_. Untouched) [(WARNING, msg)] e)"
    using n by (simp add: apply_fp_def warn_def touch_Untouched touch_items_id option.map_id)
qed

lemma cellwise_device_touch:
  "cellwise S (\<lambda>e. (r, e\<lparr>device_metrics := (device_metrics e)(key := map_option (touch w) (device_metrics e key))\<rparr>))"
proof (rule cellwiseI)
  show "length (replicate (length (fst (snd S))) (\<lambda>_. Untouched)) = length (fst (snd S))" by simp
next
  fix e :: "'a exporter" assume "shape e = S"
  then have n: "length (fst (snd S)) = length (outlet_metrics e)" by (rule length_shape)
  have "(device_metrics e)(key := map_option (touch w) (device_metrics e key)) =
        (\<lambda>k. map_option (touch (if k = key then w else (\<lambda>_. Untouched))) (device_metrics e k))"
    by (auto simp: fun_eq_iff map_option_touch_Untouched)
  then show "(r, e\<lparr>device_metrics := (device_metrics e)(key := map_option (touch w) (device_metrics e key))\<rparr>) =
     (r, apply_fp (\<lambda>k. if k = key then w else (\<lambda>_. Untouched), replicate (length (fst (snd S))) (\<lambda>_. Untouched), \<lambda>_. Untouched) [] e)"
    using n by (simp add: apply_fp_def touch_Untouched touch_items_id)
qed

lemma cellwise_outlets_touch:
  assumes "length wo = length (fst (snd S))"
  shows "cellwise S (\<lambda>e. (r, e\<lparr>outlet_metrics := touch_items wo (outlet_metrics e)\<rparr>))"
proof (rule cellwiseI [OF assms])
  fix e :: "'a exporter" assume "shape e = S"
  have "touch (\<lambda>_. Untouched) = (id :: 'a metric \<Rightarrow> 'a metric)"
    by (simp add: fun_eq_iff touch_Untouched)
  then show "(r, e\<lparr>outlet_metrics := touch_items wo (outlet_metrics e)\<rparr>) =
     (r, apply_fp (\<lambda>_ _. Untouched, wo, \<lambda>_. Untouched) [] e)"
    by (simp add: apply_fp_def touch_Untouched option.map_id)
qed

lemma cellwise_status_touch:
  "cellwise S (\<lambda>e. (r, e\<lparr>outlet_status := touch w (outlet_status e)\<rparr>))"
proof (rule cellwiseI)
  show "length (replicate (length (fst (snd S))) (\<lambda>_. Untouched)) = length (fst (snd S))" by simp
next
  fix e :: "'a exporter" assume "shape e = S"
  then have n: "length (fst (snd S)) = length (outlet_metrics e)" by (rule length_shape)
  have "touch (\<lambda>_. Untouched) = (id :: 'a metric \<Rightarrow> 'a metric)"
    by (simp add: fun_eq_iff touch_Untouched)
  then show "(r, e\<lparr>outlet_status := touch w (outlet_status e)\<rparr>) =
     (r, apply_fp (\<lambda>_ _. Untouched, replicate (length (fst (snd S))) (\<lambda>_. Untouched), w) [] e)"
    using n by (simp add: apply_fp_def touch_Untouched touch_items_id option.map_id)
qed

lemma shape_device:
  assumes "shape e = S"
  shows "(fst S key = None \<longrightarrow> device_metrics e key = None) \<and>
         (\<forall>mb. fst S key = Some mb \<longrightarrow>
            (\<exists>m. device_metrics e key = Some m \<and> labelnames m = labelnames mb))"
  using assms by (auto simp: shape_def blank_def)

lemma cellwise_device_child: "cellwise S (device_child pyfloat dl child)"
proof (cases "tag child \<noteq> ''field''")
  case True
  then have "device_child pyfloat dl child = (\<lambda>e. (None, e))"
    by (simp add: device_child_def fun_eq_iff)
  then show ?thesis by (simp add: cellwise_return)
next
  case field: False
  show ?thesis
  proof (cases "map_of (attrib child) ''key''")
    case None
    with field have "device_child pyfloat dl child = (\<lambda>e. (Some (KeyError ''key''), e))"
      by (simp add: device_child_def fun_eq_iff)
    then show ?thesis by (simp add: cellwise_return)
  next
    case (Some key)
    show ?thesis
    proof (cases "fst S key")
      case None
      show ?thesis
      proof (rule cellwise_cong [OF cellwise_return [of S None]])
        fix e :: "'a exporter" assume "shape e = S"
        with None have "device_metrics e key = None" using shape_device by blast
        with field Some show "device_child pyfloat dl child e = (None, e)"
          by (simp add: device_child_def)
      qed
    next
      case mb: (Some mb)
      define lv where "lv = label_values (labelnames mb) dl"
      have m: "\<exists>m. device_metrics e key = Some m \<and> labelnames m = labelnames mb"
        if "shape e = S" for e :: "'a exporter"
        using that mb shape_device by blast
      show ?thesis
      proof (cases "labelnames mb \<noteq> [] \<and> mset (map fst dl) = mset (labelnames mb)")
        case False
        show ?thesis
        proof (rule cellwise_cong [OF cellwise_return [of S "Some ValueError"]])
          fix e :: "'a exporter" assume "shape e = S"
          from m [OF this] obtain m where "device_metrics e key = Some m" "labelnames m = labelnames mb"
            by blast
          with field Some False show "device_child pyfloat dl child e = (Some ValueError, e)"
            by (auto simp: device_child_def labels_touch)
        qed
      next
        case ok: True
        show ?thesis
        proof (cases "map_of (attrib child) ''value''")
          case None
          show ?thesis
          proof (rule cellwise_cong [OF cellwise_device_touch [of S "Some (KeyError ''value'')" key "only lv Ensured"]])
            fix e :: "'a exporter" assume "shape e = S"
            from m [OF this] obtain m where "device_metrics e key = Some m" "labelnames m = labelnames mb"
              by blast
            with field Some ok None show "device_child pyfloat dl child e =
               (Some (KeyError ''value''), e\<lparr>device_metrics := (device_metrics e)(key := map_option (touch (only lv Ensured)) (device_metrics e key))\<rparr>)"
              by (simp add: device_child_def labels_touch lv_def)
          qed
        next
          case val: (Some s)
          show ?thesis
          proof (cases "pyfloat s")
            case None
            show ?thesis
            proof (rule cellwise_cong [OF cellwise_device_touch [of S "Some ValueError" key "only lv Ensured"]])
              fix e :: "'a exporter" assume "shape e = S"
              from m [OF this] obtain m where "device_metrics e key = Some m" "labelnames m = labelnames mb"
                by blast
              with field Some ok val None show "device_child pyfloat dl child e =
                 (Some ValueError, e\<lparr>device_metrics := (device_metrics e)(key := map_option (touch (only lv Ensured)) (device_metrics e key))\<rparr>)"
                by (simp add: device_child_def labels_touch lv_def)
            qed
          next
            case v: (Some v)
            show ?thesis
            proof (rule cellwise_cong [OF cellwise_device_touch [of S None key "\<lambda>l. then_eff (only lv Ensured l) (only lv (Written v) l)"]])
              fix e :: "'a exporter" assume "shape e = S"
              from m [OF this] obtain m where "device_metrics e key = Some m" "labelnames m = labelnames mb"
                by blast
              with field Some ok val v show "device_child pyfloat dl child e =
                 (None, e\<lparr>device_metrics := (device_metrics e)(key := map_option (touch (\<lambda>l. then_eff (only lv Ensured l) (only lv (Written v) l))) (device_metrics e key))\<rparr>)"
                by (simp add: device_child_def labels_touch lv_def gauge_set_touch touch_touch)
            qed
          qed
        qed
      qed
    qed
  qed
qed

lemma outlet_gauges_touch:
  "\<exists>r wo. length wo = length its \<and>
     (\<forall>items. map (\<lambda>(k, m). (k, blank m)) items = its \<longrightarrow>
        outlet_gauges pyfloat outlet kw items = (r, touch_items wo items))"
proof (induction its)
  case Nil
  have "length ([] :: (labelvalues \<Rightarrow> 'a effect) list) = length ([] :: (string \<times> 'a metric) list) \<and>
     (\<forall>items. map (\<lambda>(k, m). (k, blank m)) items = [] \<longrightarrow>
        outlet_gauges pyfloat outlet kw items = (None, touch_items [] items))"
    by (simp add: touch_items_def)
  then show ?case by blast
next
  case (Cons p its)
  obtain attr mb where p: "p = (attr, mb)" by (cases p)
  from Cons obtain r' wo' where n: "length wo' = length its" and
    IH: "\<And>items. map (\<lambda>(k, m). (k, blank m)) items = its \<Longrightarrow>
        outlet_gauges pyfloat outlet kw items = (r', touch_items wo' items)"
    by blast
  define lv where "lv = label_values (labelnames mb) kw"
  define U :: "(labelvalues \<Rightarrow> 'a effect) list" where "U = replicate (length its) (\<lambda>_. Untouched)"
  have shape_items: "\<exists>m items'. items = (attr, m) # items' \<and> labelnames m = labelnames mb \<and>
      map (\<lambda>(k, m). (k, blank m)) items' = its \<and> length items' = length its"
    if "map (\<lambda>(k, m). (k, blank m)) items = p # its" for items :: "(string \<times> 'a metric) list"
  proof -
    from that p obtain q items' where items: "items = q # items'"
      and q: "(case q of (k, m) \<Rightarrow> (k, blank m)) = (attr, mb)"
      and rest: "map (\<lambda>(k, m). (k, blank m)) items' = its"
      by (cases items) auto
    obtain k m where "q = (k, m)" by (cases q)
    with q have "q = (attr, m)" and "blank m = mb" by auto
    moreover from this have "labelnames m = labelnames mb"
      by (auto simp: blank_def)
    moreover from rest have "length items' = length its" by auto
    ultimately show ?thesis using items rest by blast
  qed
  have U: "touch_items U items' = items'" if "length items' = length its" for items' :: "(string \<times> 'a metric) list"
    using that touch_items_id [of items'] by (simp add: U_def)
  have tcons: "touch_items (w # ws) ((attr, m) # items') = (attr, touch w m) # touch_items ws items'"
    for w ws m and items' :: "(string \<times> 'a metric) list"
    by (simp add: touch_items_def)
  consider (bad) "\<not> (labelnames mb \<noteq> [] \<and> mset (map fst kw) = mset (labelnames mb))"
    | (noattr) "labelnames mb \<noteq> [] \<and> mset (map fst kw) = mset (labelnames mb)"
        "map_of (attrib outlet) attr = None"
    | (nofloat) s where "labelnames mb \<noteq> [] \<and> mset (map fst kw) = mset (labelnames mb)"
        "map_of (attrib outlet) attr = Some s" "pyfloat s = None"
    | (ok) s v where "labelnames mb \<noteq> [] \<and> mset (map fst kw) = mset (labelnames mb)"
        "map_of (attrib outlet) attr = Some s" "pyfloat s = Some v"
    by (cases "map_of (attrib outlet) attr"; cases "pyfloat (the (map_of (attrib outlet) attr))") auto
  then show ?case
  proof cases
    case bad
    have "length ((\<lambda>_. Untouched) # U) = length (p # its) \<and>
      (\<forall>items. map (\<lambda>(k, m). (k, blank m)) items = p # its \<longrightarrow>
        outlet_gauges pyfloat outlet kw items = (Some ValueError, touch_items ((\<lambda>_. Untouched) # U) items))"
    proof (intro conjI allI impI)
      fix items :: "(string \<times> 'a metric) list"
      assume "map (\<lambda>(k, m). (k, blank m)) items = p # its"
      from shape_items [OF this] obtain m items' where
        "items = (attr, m) # items'" "labelnames m = labelnames mb" "length items' = length its"
        by blast
      with bad show "outlet_gauges pyfloat outlet kw items = (Some ValueError, touch_items ((\<lambda>_. Untouched) # U) items)"
        by (auto simp: labels_touch tcons U touch_Untouched)
    qed (simp add: U_def)
    then show ?thesis by blast
  next
    case noattr
    have "length (only lv Ensured # U) = length (p # its) \<and>
      (\<forall>items. map (\<lambda>(k, m). (k, blank m)) items = p # its \<longrightarrow>
        outlet_gauges pyfloat outlet kw items = (Some (KeyError attr), touch_items (only lv Ensured # U) items))"
    proof (intro conjI allI impI)
      fix items :: "(string \<times> 'a metric) list"
      assume "map (\<lambda>(k, m). (k, blank m)) items = p # its"
      from shape_items [OF this] obtain m items' where
        "items = (attr, m) # items'" "labelnames m = labelnames mb" "length items' = length its"
        by blast
      with noattr show "outlet_gauges pyfloat outlet kw items = (Some (KeyError attr), touch_items (only lv Ensured # U) items)"
        by (simp add: labels_touch tcons U lv_def)
    qed (simp add: U_def)
    then show ?thesis by blast
  next
    case nofloat
    have "length (only lv Ensured # U) = length (p # its) \<and>
      (\<forall>items. map (\<lambda>(k, m). (k, blank m)) items = p # its \<longrightarrow>
        outlet_gauges pyfloat outlet kw items = (Some ValueError, touch_items (only lv Ensured # U) items))"
    proof (intro conjI allI impI)
      fix items :: "(string \<times> 'a metric) list"
      assume "map (\<lambda>(k, m). (k, blank m)) items = p # its"
      from shape_items [OF this] obtain m items' where
        "items = (attr, m) # items'" "labelnames m = labelnames mb" "length items' = length its"
        by blast
      with nofloat show "outlet_gauges pyfloat outlet kw items = (Some ValueError, touch_items (only lv Ensured # U) items)"
        by (simp add: labels_touch tcons U lv_def)
    qed (simp add: U_def)
    then show ?thesis by blast
  next
    case ok
    let ?w = "\<lambda>l. then_eff (only lv Ensured l) (only lv (Written v) l)"
    have "length (?w # wo') = length (p # its) \<and>
      (\<forall>items. map (\<lambda>(k, m). (k, blank m)) items = p # its \<longrightarrow>
        outlet_gauges pyfloat outlet kw items = (r', touch_items (?w # wo') items))"
    proof (intro conjI allI impI)
      fix items :: "(string \<times> 'a metric) list"
      assume "map (\<lambda>(k, m). (k, blank m)) items = p # its"
      from shape_items [OF this] obtain m items' where
        "items = (attr, m) # items'" "labelnames m = labelnames mb"
        "map (\<lambda>(k, m). (k, blank m)) items' = its"
        by blast
      with ok IH [of items'] show "outlet_gauges pyfloat outlet kw items = (r', touch_items (?w # wo') items)"
        by (simp add: labels_touch tcons lv_def gauge_set_touch touch_touch)
    qed (simp add: n)
    then show ?thesis by blast
  qed
qed

lemma cellwise_outlet_gauges:
  "cellwise S (\<lambda>e. case outlet_gauges pyfloat outlet kw (outlet_metrics e) of
                     (r, items) \<Rightarrow> (r, e\<lparr>outlet_metrics := items\<rparr>))"
proof -
  obtain r wo where n: "length wo = length (fst (snd S))" and
    g: "\<And>items. map (\<lambda>(k, m). (k, blank m)) items = fst (snd S) \<Longrightarrow>
        outlet_gauges pyfloat outlet kw items = (r, touch_items wo items)"
    using outlet_gauges_touch [of "fst (snd S)" pyfloat outlet kw] by blast
  show ?thesis
  proof (rule cellwise_cong [OF cellwise_outlets_touch [OF n, of r]])
    fix e :: "'a exporter" assume "shape e = S"
    then have "map (\<lambda>(k, m). (k, blank m)) (outlet_metrics e) = fst (snd S)"
      by (auto simp: shape_def)
    from g [OF this] show "(case outlet_gauges pyfloat outlet kw (outlet_metrics e) of
                     (r, items) \<Rightarrow> (r, e\<lparr>outlet_metrics := items\<rparr>)) =
       (r, e\<lparr>outlet_metrics := touch_items wo (outlet_metrics e)\<rparr>)"
      by simp
  qed
qed

lemma shape_status:
  "shape e = S \<Longrightarrow> labelnames (outlet_status e) = labelnames (snd (snd S)) \<and>
     states (outlet_status e) = states (snd (snd S))"
  by (auto simp: shape_def blank_def)

lemma cellwise_outlet_status:
  "cellwise S (\<lambda>e. case labels (outlet_status e) kw of
                 Inl err \<Rightarrow> (Some err, e)
               | Inr (lv, st) \<Rightarrow>
                  (case map_of (attrib outlet) ''status'' of
                     None \<Rightarrow> (Some (KeyError ''status''), e\<lparr>outlet_status := st\<rparr>)
                   | Some s \<Rightarrow>
                      (case enum_state lv s st of
                         Inl err \<Rightarrow> (Some err, e\<lparr>outlet_status := st\<rparr>)
                       | Inr st' \<Rightarrow> (None, e\<lparr>outlet_status := st'\<rparr>))))"
  (is "cellwise S ?F")
proof -
  define sb where "sb = snd (snd S)"
  define lv where "lv = label_values (labelnames sb) kw"
  have st: "labelnames (outlet_status e) = labelnames sb \<and> states (outlet_status e) = states sb"
    if "shape e = S" for e :: "'a exporter"
    using shape_status [OF that] by (simp add: sb_def)
  have states_touch: "states (touch w m) = states m" for w and m :: enum
    by (simp add: touch_def)
  consider (bad) "\<not> (labelnames sb \<noteq> [] \<and> mset (map fst kw) = mset (labelnames sb))"
    | (noattr) "labelnames sb \<noteq> [] \<and> mset (map fst kw) = mset (labelnames sb)"
        "map_of (attrib outlet) ''status'' = None"
    | (nostate) s where "labelnames sb \<noteq> [] \<and> mset (map fst kw) = mset (labelnames sb)"
        "map_of (attrib outlet) ''status'' = Some s" "index_of s (states sb) = None"
    | (ok) s i where "labelnames sb \<noteq> [] \<and> mset (map fst kw) = mset (labelnames sb)"
        "map_of (attrib outlet) ''status'' = Some s" "index_of s (states sb) = Some i"
    by (cases "map_of (attrib outlet) ''status''";
        cases "index_of (the (map_of (attrib outlet) ''status'')) (states sb)") auto
  then show ?thesis
  proof cases
    case bad
    show ?thesis
    proof (rule cellwise_cong [OF cellwise_return [of S "Some ValueError"]])
      fix e :: "'a exporter" assume "shape e = S"
      with bad st show "?F e = (Some ValueError, e)"
        by (auto simp: labels_touch)
    qed
  next
    case noattr
    show ?thesis
    proof (rule cellwise_cong [OF cellwise_status_touch [of S "Some (KeyError ''status'')" "only lv Ensured"]])
      fix e :: "'a exporter" assume "shape e = S"
      with noattr st show "?F e = (Some (KeyError ''status''), e\<lparr>outlet_status := touch (only lv Ensured) (outlet_status e)\<rparr>)"
        by (simp add: labels_touch lv_def)
    qed
  next
    case nostate
    show ?thesis
    proof (rule cellwise_cong [OF cellwise_status_touch [of S "Some ValueError" "only lv Ensured"]])
      fix e :: "'a exporter" assume "shape e = S"
      with nostate st show "?F e = (Some ValueError, e\<lparr>outlet_status := touch (only lv Ensured) (outlet_status e)\<rparr>)"
        by (simp add: labels_touch lv_def enum_state_touch states_touch)
    qed
  next
    case ok
    show ?thesis
    proof (rule cellwise_cong [OF cellwise_status_touch [of S None "\<lambda>l. then_eff (only lv Ensured l) (only lv (Written i) l)"]])
      fix e :: "'a exporter" assume "shape e = S"
      with ok st show "?F e = (None, e\<lparr>outlet_status := touch (\<lambda>l. then_eff (only lv Ensured l) (only lv (Written i) l)) (outlet_status e)\<rparr>)"
        by (simp add: labels_touch lv_def enum_state_touch states_touch touch_touch)
    qed
  qed
qed

lemma process_outlet_bind:
  "process_outlet pyfloat dl outlet =
     (case map_of (attrib outlet) ''num'' of
        None \<Rightarrow> (\<lambda>e. (Some (KeyError ''num''), e))
      | Some num \<Rightarrow>
         (case outlet_kwargs outlet dl of
            Inl err \<Rightarrow> (\<lambda>e. (Some err, info (''Processsing outlet '' @ num) e))
          | Inr kw \<Rightarrow>
             bind (\<lambda>e. (None, info (''Processsing outlet '' @ num) e))
               (bind (\<lambda>e. case outlet_gauges pyfloat outlet kw (outlet_metrics e) of
                             (r, items) \<Rightarrow> (r, e\<lparr>outlet_metrics := items\<rparr>))
                  (\<lambda>e. case labels (outlet_status e) kw of
                     Inl err \<Rightarrow> (Some err, e)
                   | Inr (lv, st) \<Rightarrow>
                      (case map_of (attrib outlet) ''status'' of
                         None \<Rightarrow> (Some (KeyError ''status''), e\<lparr>outlet_status := st\<rparr>)
                       | Some s \<Rightarrow>
                          (case enum_state lv s st of
                             Inl err \<Rightarrow> (Some err, e\<lparr>outlet_status := st\<rparr>)
                           | Inr st' \<Rightarrow> (None, e\<lparr>outlet_status := st'\<rparr>)))))))"
  by (auto simp: process_outlet_def bind_def Let_def info_def fun_eq_iff
      split: option.splits sum.splits prod.splits)

lemma cellwise_process_outlet: "cellwise S (process_outlet pyfloat dl outlet)"
  unfolding process_outlet_bind
  by (auto split: option.splits sum.splits
      intro!: cellwise_return cellwise_info cellwise_bind cellwise_outlet_gauges cellwise_outlet_status)

lemma process_device_bind:
  "process_device pyfloat device =
     (case map_of (attrib device) ''type'' of
        None \<Rightarrow> (\<lambda>e. (Some (KeyError ''type''), e))
      | Some t \<Rightarrow>
         (case find_elem ''outlets'' device of
            None \<Rightarrow> (\<lambda>e. (None, info (''Processsing device '' @ t) e))
          | Some outlets \<Rightarrow>
             if \<not> element_bool outlets then (\<lambda>e. (None, info (''Processsing device '' @ t) e))
             else
               (case label_dict device_labels (attrib device) of
                  Inl err \<Rightarrow> (\<lambda>e. (Some err, info (''Processsing device '' @ t) e))
                | Inr dl \<Rightarrow>
                   bind (\<lambda>e. (None, info (''Processsing device '' @ t) e))
                     (bind (for_each (device_child pyfloat dl) (children device))
                        (for_each (process_outlet pyfloat dl) (children outlets))))))"
  by (auto simp: process_device_def bind_def Let_def fun_eq_iff
      split: option.splits sum.splits prod.splits)

lemma cellwise_process_device: "cellwise S (process_device pyfloat device)"
  unfolding process_device_bind
  by (auto split: option.splits sum.splits
      intro!: cellwise_return cellwise_info cellwise_bind cellwise_for_each
        cellwise_device_child cellwise_process_outlet)

lemma process_bind:
  "process pyfloat http =
     (case http of
        RaisesConnectionError strerror \<Rightarrow>
          bind (\<lambda>e. (None, info ''Starting process..'' e))
            (\<lambda>e. (Some UnboundLocalError,
               warn (''Exception while connecting to device: '' @
                 (case strerror of None \<Rightarrow> ''None'' | Some s \<Rightarrow> s)) e))
      | RaisesReadTimeout \<Rightarrow> (\<lambda>e. (Some ReadTimeout, info ''Starting process..'' e))
      | Returns NotWellFormed \<Rightarrow> (\<lambda>e. (Some ParseError, info ''Starting process..'' e))
      | Returns (WellFormed tree) \<Rightarrow>
          (case find_elem ''devices'' tree of
             None \<Rightarrow> (\<lambda>e. (Some TypeError, info ''Starting process..'' e))
           | Some devices \<Rightarrow>
               bind (\<lambda>e. (None, info ''Starting process..'' e))
                 (for_each (process_device pyfloat) (children devices))))"
  by (auto simp: process_def fetch_def bind_def fun_eq_iff
      split: option.splits sum.splits prod.splits http_result.splits body.splits)

lemma cellwise_process: "cellwise S (process pyfloat http)"
  unfolding process_bind
  by (auto split: option.splits http_result.splits body.splits
      intro!: cellwise_return cellwise_info cellwise_warn cellwise_bind cellwise_for_each
        cellwise_process_device)

section \<open>Lemmas on the exporter\<close>

lemma instruments_info: "instruments (info msg e) = instruments e"
  by (simp add: instruments_def info_def)

lemma instruments_warn: "instruments (warn msg e) = instruments e"
  by (simp add: instruments_def warn_def)

lemma declared_init: "declared (init_exporter :: 'v exporter)"
  by (simp add: declared_def)

lemma declared_device_metrics:
  "declared e \<Longrightarrow>
   map_option blank (device_metrics e k) = map_option blank (device_metrics (init_exporter :: 'v exporter) k)"
  for e :: "'v exporter"
  unfolding declared_def shape_def by (auto dest: fun_cong)

lemma cellwise_cycle: "cellwise S (cycle pyfloat c)"
proof -
  have "cycle pyfloat c =
      bind (process pyfloat (fst c)) (\<lambda>e. (None, info (''Process completed in '' @ snd c @ ''s'') e))"
    by (auto simp: cycle_def bind_def fun_eq_iff split: prod.splits option.splits)
  then show ?thesis
    by (simp add: cellwise_bind cellwise_process cellwise_info)
qed

lemma shape_start_export_loop: "shape (snd (start_export_loop pyfloat cycles e)) = shape e"
  unfolding start_export_loop_def
  by (rule cellwise_shape [OF cellwise_for_each refl]) (rule cellwise_cycle)

lemma process_document:
  "process pyfloat (Returns (WellFormed (document cs))) e =
     for_each (process_device pyfloat) [device_of cs] (info ''Starting process..'' e)"
  by (simp add: process_def fetch_def document_def find_elem_def)

lemma blank_blank: "blank (blank m) = blank m"
  by (simp add: blank_def)

lemma declared_outlet_metrics:
  assumes "declared e"
  shows "\<exists>m1 m2 m3. outlet_metrics e = [(''amps'', m1), (''kwatthrs'', m2), (''watts'', m3)]
     \<and> labelnames m1 = outlet_labels @ device_labels
     \<and> labelnames m2 = outlet_labels @ device_labels
     \<and> labelnames m3 = outlet_labels @ device_labels"
proof -
  from assms have "map (\<lambda>(k, m). (k, blank m)) (outlet_metrics e) =
      map (\<lambda>(k, m). (k, blank m)) (outlet_metrics (init_exporter :: 'a exporter))"
    by (simp add: declared_def shape_def)
  then obtain m1 m2 m3 where items: "outlet_metrics e = [(''amps'', m1), (''kwatthrs'', m2), (''watts'', m3)]"
    and "blank m1 = blank (Gauge ''pdu_outlet_amps'' ''Outlet Amperage'' (outlet_labels @ device_labels))"
    and "blank m2 = blank (Gauge ''pdu_outlet_kwh_total'' ''Outlet Total KWh'' (outlet_labels @ device_labels))"
    and "blank m3 = blank (Gauge ''pdu_outlet_watts'' ''Outlet Watts'' (outlet_labels @ device_labels))"
    by (auto simp: init_exporter_def map_eq_Cons_conv blank_blank)
  then have "labelnames m1 = outlet_labels @ device_labels"
    "labelnames m2 = outlet_labels @ device_labels"
    "labelnames m3 = outlet_labels @ device_labels"
    by (auto dest!: labelnames_blank simp: Gauge_def)
  with items show ?thesis by blast
qed

lemma declared_outlet_status:
  assumes "declared e"
  shows "labelnames (outlet_status e) = outlet_labels @ device_labels
     \<and> states (outlet_status e) = [''On'', ''Off'']"
proof -
  from assms have "blank (outlet_status e) = blank (outlet_status (init_exporter :: 'a exporter))"
    by (simp add: declared_def shape_def)
  then have "labelnames (blank (outlet_status e)) = labelnames (blank (outlet_status (init_exporter :: 'a exporter)))"
    and "states (blank (outlet_status e)) = states (blank (outlet_status (init_exporter :: 'a exporter)))"
    by simp_all
  then show ?thesis
    by (simp add: init_exporter_def Enum_def blank_def)
qed

lemma declared_device_labelnames:
  assumes "declared e" and "device_metrics e k = Some m"
  shows "labelnames m = device_labels"
proof -
  from assms have "map_option blank (device_metrics (init_exporter :: 'a exporter) k) = Some (blank m)"
    using declared_device_metrics [of e k] by simp
  then obtain m0 :: "'a metric" where "device_metrics (init_exporter :: 'a exporter) k = Some m0"
    and "blank m0 = blank m"
    by auto
  then have "labelnames m0 = labelnames m" "labelnames m0 = device_labels"
    by (auto dest: labelnames_blank simp: init_exporter_def Gauge_def split: if_splits)
  then show ?thesis by simp
qed

lemma declared_realpower:
  assumes "declared e"
  shows "\<exists>m. device_metrics e ''RealPower-A'' = Some m \<and> metric_name m = ''pdu_realpower''
     \<and> labelnames m = device_labels"
proof -
  from assms have "map_option blank (device_metrics e ''RealPower-A'') =
      Some (blank (Gauge ''pdu_realpower'' ''Device realpower'' device_labels))"
    using declared_device_metrics [of e "''RealPower-A''"] by (simp add: init_exporter_def)
  then obtain m where m: "device_metrics e ''RealPower-A'' = Some m"
    and "blank m = blank (Gauge ''pdu_realpower'' ''Device realpower'' device_labels :: 'a metric)"
    by auto
  then have "metric_name (blank m) = ''pdu_realpower''" "labelnames (blank m) = device_labels"
    by (simp_all add: Gauge_def blank_def)
  with m show ?thesis by (simp add: blank_def)
qed

lemma declared_snd:
  "cellwise (shape e) F \<Longrightarrow> declared e \<Longrightarrow> declared (snd (F e))"
  by (simp add: declared_def cellwise_shape)

lemma for_each_raises:
  "fst (body x e) \<noteq> None \<Longrightarrow> for_each body (x # xs) e = body x e"
  by (cases "body x e") auto

lemma for_each_append:
  "for_each body (xs @ ys) e =
     (case for_each body xs e of
        (Some err, e') \<Rightarrow> (Some err, e')
      | (None, e') \<Rightarrow> for_each body ys e')"
  by (induction xs arbitrary: e) (auto split: prod.splits option.splits)

lemma outlet_gauges_attrib:
  "fst (outlet_gauges pyfloat outlet kw items) = None \<Longrightarrow> (attr, m) \<in> set items \<Longrightarrow>
   \<exists>s v. map_of (attrib outlet) attr = Some s \<and> pyfloat s = Some v"
  by (induction items) (auto split: sum.splits option.splits prod.splits)

lemma process_outlet_gauges:
  assumes "fst (process_outlet pyfloat dl outlet e) = None"
  shows "\<exists>kw. outlet_kwargs outlet dl = Inr kw \<and>
     fst (outlet_gauges pyfloat outlet kw (outlet_metrics e)) = None"
  using assms
  by (auto simp: process_outlet_def Let_def info_def split: option.splits sum.splits prod.splits)

lemma process_outlet_status:
  assumes "fst (process_outlet pyfloat dl outlet e) = None"
  shows "\<exists>s i. map_of (attrib outlet) ''status'' = Some s \<and>
     index_of s (states (outlet_status e)) = Some i"
  using assms
  by (auto simp: process_outlet_def Let_def info_def labels_touch enum_state_touch touch_def
      split: option.splits sum.splits prod.splits if_splits)

lemma process_outlet_bad_status:
  assumes "map_of (attrib outlet) ''status'' = Some s"
    and "index_of s (states (outlet_status e)) = None"
  shows "outlet_status (snd (process_outlet pyfloat dl outlet e)) = outlet_status e
    \<or> (\<exists>lv. outlet_status (snd (process_outlet pyfloat dl outlet e)) =
          touch (only lv Ensured) (outlet_status e))"
  using assms
  by (auto simp: process_outlet_def Let_def info_def labels_touch enum_state_touch touch_def
      split: option.splits sum.splits prod.splits if_splits)



lemma label_dict_device:
  assumes "label_dict device_labels d = Inr dl"
  shows "\<exists>i t. map_of d ''id'' = Some i \<and> map_of d ''type'' = Some t \<and>
     dl = [(''id'', i), (''type'', t)]"
  using assms by (auto simp: device_labels_def split: option.splits)



lemma cellwise_fst:
  assumes "cellwise S F" and "shape e = S" and "shape e' = S"
  shows "fst (F e) = fst (F e')"
  using assms unfolding cellwise_def by (metis (no_types, lifting) fst_conv)

lemma declared_info: "declared (info msg e) = declared e"
  by (simp add: declared_def shape_def info_def)

lemma for_each_invariant:
  assumes "\<And>x e. x \<in> set xs \<Longrightarrow> I e \<Longrightarrow> I (snd (body x e))" and "I e"
  shows "I (snd (for_each body xs e))"
  using assms
proof (induction xs arbitrary: e)
  case Nil
  then show ?case by simp
next
  case (Cons x xs)
  have "I (snd (body x e))" using Cons.prems by simp
  moreover have "I (snd (for_each body xs e'))" if "I e'" for e'
    using Cons.IH [of e'] Cons.prems(1) that by simp
  ultimately show ?case
    by (cases "body x e") (auto split: option.splits)
qed

lemma device_child_gauge:
  assumes "declared e"
  shows "device_gauge (snd (device_child pyfloat [(''id'', i), (''type'', t)] child e)) k lv =
     (if tag child = ''field'' \<and> map_of (attrib child) ''key'' = Some k \<and> lv = [i, t]
         \<and> device_metrics e k \<noteq> None
      then (case map_of (attrib child) ''value'' of
              None \<Rightarrow> eff Ensured (device_gauge e k lv)
            | Some s \<Rightarrow>
               (case pyfloat s of
                  None \<Rightarrow> eff Ensured (device_gauge e k lv)
                | Some v \<Rightarrow> Some v))
      else device_gauge e k lv)"
proof (cases "tag child = ''field''")
  case False
  then show ?thesis by (simp add: device_child_def)
next
  case field: True
  show ?thesis
  proof (cases "map_of (attrib child) ''key''")
    case None
    with field show ?thesis by (simp add: device_child_def)
  next
    case (Some key)
    show ?thesis
    proof (cases "device_metrics e key")
      case None
      with field Some show ?thesis by (auto simp: device_child_def)
    next
      case m: (Some m)
      from declared_device_labelnames [OF assms m]
      have ln: "labelnames m = [''id'', ''type'']" by (simp add: device_labels_def)
      have lv: "label_values [''id'', ''type''] [(''id'', i), (''type'', t)] = [i, t]"
        by (simp add: label_values_def)
      show ?thesis
      proof (cases "map_of (attrib child) ''value''")
        case None
        with field Some m ln lv show ?thesis
          by (auto simp: device_child_def labels_touch touch_def only_def device_gauge_def)
      next
        case val: (Some s)
        with field Some m ln lv show ?thesis
          by (cases "pyfloat s")
            (auto simp: device_child_def labels_touch gauge_set_touch touch_def only_def
              device_gauge_def)
      qed
    qed
  qed
qed

lemma device_child_raises:
  assumes "declared e" and "tag child = ''field''" and "map_of (attrib child) ''key'' = Some k"
    and "device_metrics e k \<noteq> None"
    and "map_of (attrib child) ''value'' = Some s" and "pyfloat s = Some v"
  shows "fst (device_child pyfloat [(''id'', i), (''type'', t)] child e) = None"
proof -
  from assms(4) obtain m where m: "device_metrics e k = Some m" by auto
  from declared_device_labelnames [OF assms(1) m]
  have "labelnames m = [''id'', ''type'']" by (simp add: device_labels_def)
  with assms m show ?thesis
    by (simp add: device_child_def labels_touch)
qed

lemma process_outlet_device_metrics:
  "device_metrics (snd (process_outlet pyfloat dl outlet e)) = device_metrics e"
  by (auto simp: process_outlet_def Let_def info_def
      split: option.splits sum.splits prod.splits)

lemma process_outlets_device_gauge:
  "device_gauge (snd (for_each (process_outlet pyfloat dl) outlets e)) k lv = device_gauge e k lv"
  by (rule for_each_invariant [where I = "\<lambda>e'. device_gauge e' k lv = device_gauge e k lv"])
    (simp_all add: device_gauge_def process_outlet_device_metrics)

lemma declared_device_child:
  "declared e \<Longrightarrow> declared (snd (device_child pyfloat dl child e))"
  by (rule declared_snd [OF cellwise_device_child])

lemma declared_process_device:
  "declared e \<Longrightarrow> declared (snd (process_device pyfloat device e))"
  by (rule declared_snd [OF cellwise_process_device])

lemma declared_for_each:
  "(\<And>x. cellwise (shape e) (body x)) \<Longrightarrow> declared e \<Longrightarrow> declared (snd (for_each body xs e))"
  by (rule declared_snd [OF cellwise_for_each])

lemma device_children_frame:
  assumes "declared e"
    and "lv \<noteq> [i, t] \<or> (\<forall>c \<in> set cs. tag c = ''field'' \<longrightarrow> map_of (attrib c) ''key'' \<noteq> Some k)"
  shows "device_gauge (snd (for_each (device_child pyfloat [(''id'', i), (''type'', t)]) cs e)) k lv =
     device_gauge e k lv"
proof -
  have "declared (snd (for_each (device_child pyfloat [(''id'', i), (''type'', t)]) cs e)) \<and>
      device_gauge (snd (for_each (device_child pyfloat [(''id'', i), (''type'', t)]) cs e)) k lv =
      device_gauge e k lv"
  proof (rule for_each_invariant [where I = "\<lambda>e'. declared e' \<and> device_gauge e' k lv = device_gauge e k lv"])
    fix c and e' :: "'a exporter"
    assume "c \<in> set cs" and "declared e' \<and> device_gauge e' k lv = device_gauge e k lv"
    with assms(2) device_child_gauge [of e' pyfloat i t c k lv]
    show "declared (snd (device_child pyfloat [(''id'', i), (''type'', t)] c e')) \<and>
        device_gauge (snd (device_child pyfloat [(''id'', i), (''type'', t)] c e')) k lv =
        device_gauge e k lv"
      by (auto simp: declared_device_child)
  qed (simp add: assms(1))
  then show ?thesis by simp
qed

lemma process_device_frame:
  assumes "declared e"
    and "\<not> (map_of (attrib device) ''id'' = Some i \<and> map_of (attrib device) ''type'' = Some t)"
  shows "device_gauge (snd (process_device pyfloat device e)) k [i, t] = device_gauge e k [i, t]"
proof -
  have info: "device_gauge (info msg e) k [i, t] = device_gauge e k [i, t]" for msg
    by (simp add: device_gauge_def info_def)
  show ?thesis
  proof (cases "label_dict device_labels (attrib device)")
    case (Inl err)
    then show ?thesis
      by (auto simp: process_device_def Let_def info split: option.splits)
  next
    case (Inr dl)
    from label_dict_device [OF this] obtain i' t' where
      at: "map_of (attrib device) ''id'' = Some i'" "map_of (attrib device) ''type'' = Some t'"
      and dl: "dl = [(''id'', i'), (''type'', t')]"
      by blast
    with assms(2) have ne: "[i, t] \<noteq> [i', t']" by auto
    let ?e1 = "info (''Processsing device '' @ t') e"
    have d1: "declared ?e1" using assms(1) by (simp add: declared_info)
    have fields: "device_gauge (snd (for_each (device_child pyfloat dl) (children device) ?e1)) k [i, t] =
        device_gauge e k [i, t]"
      using device_children_frame [OF d1, of "[i, t]" i' t' "children device" k pyfloat] ne
      by (simp add: dl info)
    show ?thesis
      using fields Inr at
      by (auto simp: process_device_def Let_def info process_outlets_device_gauge
          split: option.splits prod.splits)
  qed
qed

lemma process_devices_frame:
  assumes "declared e"
    and "\<forall>d \<in> set ds. \<not> (map_of (attrib d) ''id'' = Some i \<and> map_of (attrib d) ''type'' = Some t)"
  shows "device_gauge (snd (for_each (process_device pyfloat) ds e)) k [i, t] = device_gauge e k [i, t]"
proof -
  have "declared (snd (for_each (process_device pyfloat) ds e)) \<and>
      device_gauge (snd (for_each (process_device pyfloat) ds e)) k [i, t] = device_gauge e k [i, t]"
  proof (rule for_each_invariant [where I = "\<lambda>e'. declared e' \<and> device_gauge e' k [i, t] = device_gauge e k [i, t]"])
    fix d and e' :: "'a exporter"
    assume "d \<in> set ds" and "declared e' \<and> device_gauge e' k [i, t] = device_gauge e k [i, t]"
    with assms(2) process_device_frame [of e' d i t pyfloat k]
    show "declared (snd (process_device pyfloat d e')) \<and>
        device_gauge (snd (process_device pyfloat d e')) k [i, t] = device_gauge e k [i, t]"
      by (auto simp: declared_process_device)
  qed (simp add: assms(1))
  then show ?thesis by simp
qed

lemma device_children_set:
  assumes "declared e"
    and "cs = before @ field # after"
    and "fst (for_each (device_child pyfloat [(''id'', i), (''type'', t)]) before e) = None"
    and "tag field = ''field''" and "map_of (attrib field) ''key'' = Some k"
    and "map_of (attrib field) ''value'' = Some s" and "pyfloat s = Some v"
    and "device_metrics e k \<noteq> None"
    and "\<forall>c \<in> set after. tag c = ''field'' \<longrightarrow> map_of (attrib c) ''key'' \<noteq> Some k"
  shows "device_gauge (snd (for_each (device_child pyfloat [(''id'', i), (''type'', t)]) cs e)) k [i, t] =
     Some v"
proof -
  let ?body = "device_child pyfloat [(''id'', i), (''type'', t)]"
  obtain e1 where e1: "for_each ?body before e = (None, e1)"
    using assms(3) by (cases "for_each ?body before e") auto
  have d1: "declared e1"
    using declared_for_each [of e ?body before] assms(1) e1 cellwise_device_child
    by (metis snd_conv)
  have "shape e1 = shape e" using d1 assms(1) by (simp add: declared_def)
  then have "map_option blank (device_metrics e1 k) = map_option blank (device_metrics e k)"
    by (auto simp: shape_def dest: fun_cong)
  with assms(8) have k1: "device_metrics e1 k \<noteq> None" by auto
  obtain e2 where e2: "?body field e1 = (None, e2)"
    using device_child_raises [of e1 field k s pyfloat v i t] d1 assms(4-7) k1
    by (cases "?body field e1") auto
  have d2: "declared e2"
    using declared_device_child [OF d1, of pyfloat "[(''id'', i), (''type'', t)]" field] e2
    by simp
  have g2: "device_gauge e2 k [i, t] = Some v"
    using device_child_gauge [OF d1, of pyfloat i t field k "[i, t]"] e2 assms(4-7) k1
    by simp
  have "device_gauge (snd (for_each ?body after e2)) k [i, t] = device_gauge e2 k [i, t]"
    using device_children_frame [OF d2, of "[i, t]" i t after k pyfloat] assms(9) by simp
  with g2 e1 e2 show ?thesis
    by (simp add: assms(2) for_each_append)
qed

lemma for_each_raises_at:
  assumes "fst (for_each body xs e) = None"
    and "fst (body x (snd (for_each body xs e))) \<noteq> None"
  shows "fst (for_each body (xs @ x # ys) e) \<noteq> None"
  using assms
  by (cases "for_each body xs e"; cases "body x (snd (for_each body xs e))")
    (auto simp: for_each_append)

lemma outlet_raise_escapes:
  assumes "declared e"
    and "\<And>e'. declared e' \<Longrightarrow> fst (process_outlet pyfloat dl outlet e') \<noteq> None"
    and "find_elem ''devices'' tree = Some devices"
    and "children devices = pre @ device # post"
    and "fst (for_each (process_device pyfloat) pre e) = None"
    and "label_dict device_labels (attrib device) = Inr dl"
    and "find_elem ''outlets'' device = Some outlets"
    and "children outlets = obefore @ outlet # oafter"
    and "fst (for_each (device_child pyfloat dl) (children device) e) = None"
    and "fst (for_each (process_outlet pyfloat dl) obefore e) = None"
  shows "fst (process pyfloat (Returns (WellFormed tree)) e) \<noteq> None
    \<and> fst (start_export_loop pyfloat ((Returns (WellFormed tree), t) # cycles) e) \<noteq> None"
proof -
  let ?e0 = "info ''Starting process..'' e"
  have d0: "declared ?e0" using assms(1) by (simp add: declared_info)
  have same: "shape e' = shape e" if "declared e'" for e' :: "'a exporter"
    using that assms(1) by (simp add: declared_def)
  have res: "process pyfloat (Returns (WellFormed tree)) e =
      for_each (process_device pyfloat) (pre @ device # post) ?e0"
    using assms(3,4) by (simp add: process_def fetch_def)
  have "fst (for_each (process_device pyfloat) pre ?e0) = fst (for_each (process_device pyfloat) pre e)"
    by (rule cellwise_fst [OF cellwise_for_each same [OF d0] refl]) (rule cellwise_process_device)
  with assms(5) have pre: "fst (for_each (process_device pyfloat) pre ?e0) = None" by simp
  let ?e1 = "snd (for_each (process_device pyfloat) pre ?e0)"
  have d1: "declared ?e1"
    by (rule declared_for_each [OF cellwise_process_device d0])
  from label_dict_device [OF assms(6)] obtain i ty where
    ty: "map_of (attrib device) ''type'' = Some ty" by blast
  let ?e2 = "info (''Processsing device '' @ ty) ?e1"
  have d2: "declared ?e2" using d1 by (simp add: declared_info)
  have "fst (for_each (device_child pyfloat dl) (children device) ?e2) =
      fst (for_each (device_child pyfloat dl) (children device) e)"
    by (rule cellwise_fst [OF cellwise_for_each same [OF d2] refl]) (rule cellwise_device_child)
  with assms(9) have fields: "fst (for_each (device_child pyfloat dl) (children device) ?e2) = None"
    by simp
  let ?e3 = "snd (for_each (device_child pyfloat dl) (children device) ?e2)"
  have d3: "declared ?e3"
    by (rule declared_for_each [OF cellwise_device_child d2])
  have "fst (for_each (process_outlet pyfloat dl) obefore ?e3) =
      fst (for_each (process_outlet pyfloat dl) obefore e)"
    by (rule cellwise_fst [OF cellwise_for_each same [OF d3] refl]) (rule cellwise_process_outlet)
  with assms(10) have ob: "fst (for_each (process_outlet pyfloat dl) obefore ?e3) = None"
    by simp
  have d4: "declared (snd (for_each (process_outlet pyfloat dl) obefore ?e3))"
    by (rule declared_for_each [OF cellwise_process_outlet d3])
  from assms(2) [OF d4]
  have "fst (for_each (process_outlet pyfloat dl) (obefore @ outlet # oafter) ?e3) \<noteq> None"
    by (rule for_each_raises_at [OF ob])
  with fields ty assms(6,7,8)
  have "fst (process_device pyfloat device ?e1) \<noteq> None"
    by (cases "for_each (device_child pyfloat dl) (children device) ?e2")
      (auto simp: process_device_def Let_def element_bool_def)
  then have "fst (for_each (process_device pyfloat) (pre @ device # post) ?e0) \<noteq> None"
    by (rule for_each_raises_at [OF pre])
  then have "fst (process pyfloat (Returns (WellFormed tree)) e) \<noteq> None"
    by (simp add: res)
  then show ?thesis
    by (cases "process pyfloat (Returns (WellFormed tree)) e")
      (auto simp: start_export_loop_def cycle_def)
qed

lemma missing_attribute_raises_aux:
  assumes "declared e"
    and "attr \<in> {''amps'', ''kwatthrs'', ''watts''}"
    and "map_of (attrib outlet) attr = None"
  shows "fst (process_outlet pyfloat dl outlet e) \<noteq> None"
proof
  assume "fst (process_outlet pyfloat dl outlet e) = None"
  from process_outlet_gauges [OF this] obtain kw where
    g: "fst (outlet_gauges pyfloat outlet kw (outlet_metrics e)) = None"
    by blast
  from declared_outlet_metrics [OF assms(1)] assms(2)
  obtain m where "(attr, m) \<in> set (outlet_metrics e)" by auto
  from outlet_gauges_attrib [OF g this] assms(3) show False by simp
qed

lemma unknown_status_raises_aux:
  assumes "declared e"
    and "map_of (attrib outlet) ''status'' = Some s"
    and "s \<noteq> ''On''" and "s \<noteq> ''Off''"
  shows "fst (process_outlet pyfloat dl outlet e) \<noteq> None"
proof
  from declared_outlet_status [OF assms(1)]
  have "states (outlet_status e) = [''On'', ''Off'']" by simp
  with assms have bad: "index_of s (states (outlet_status e)) = None" by simp
  assume "fst (process_outlet pyfloat dl outlet e) = None"
  from process_outlet_status [OF this] assms(2) bad show False by simp
qed

lemma unknown_status_state:
  assumes "declared e"
    and "map_of (attrib outlet) ''status'' = Some s"
    and "s \<noteq> ''On''" and "s \<noteq> ''Off''"
  shows "status_state (snd (process_outlet pyfloat dl outlet e)) lv = status_state e lv
            \<or> status_state e lv = None
              \<and> status_state (snd (process_outlet pyfloat dl outlet e)) lv = Some ''On''"
proof -
  from declared_outlet_status [OF assms(1)]
  have st: "states (outlet_status e) = [''On'', ''Off'']" by simp
  with assms have bad: "index_of s (states (outlet_status e)) = None" by simp
  from process_outlet_bad_status [OF assms(2) bad, of pyfloat dl]
  consider "outlet_status (snd (process_outlet pyfloat dl outlet e)) = outlet_status e"
    | lv' where "outlet_status (snd (process_outlet pyfloat dl outlet e)) =
        touch (only lv' Ensured) (outlet_status e)"
    by blast
  then show ?thesis
  proof cases
    case 1
    then have "status_state (snd (process_outlet pyfloat dl outlet e)) lv = status_state e lv"
      by (simp only: status_state_def)
    then show ?thesis by blast
  next
    case 2
    then have "states (outlet_status (snd (process_outlet pyfloat dl outlet e))) = [''On'', ''Off'']"
      using st by (simp add: touch_def)
    with 2 st show ?thesis
      by (cases "lv = lv'"; cases "samples (outlet_status e) lv")
        (simp_all add: status_state_def touch_def only_def)
  qed
qed

lemma warnings_info: "warnings (info msg e) = warnings e"
  by (simp add: warnings_def info_def)

lemma warnings_device_child: "warnings (snd (device_child pyfloat dl child e)) = warnings e"
  by (auto simp: device_child_def Let_def warnings_def split: option.splits sum.splits prod.splits)

lemma warnings_process_outlet: "warnings (snd (process_outlet pyfloat dl outlet e)) = warnings e"
  by (auto simp: process_outlet_def Let_def warnings_def info_def
      split: option.splits sum.splits prod.splits)

lemma warnings_for_each:
  assumes "\<And>x e. warnings (snd (body x e)) = warnings e"
  shows "warnings (snd (for_each body xs e)) = warnings e"
  by (rule for_each_invariant [where I = "\<lambda>e'. warnings e' = warnings e"]) (simp_all add: assms)

lemma warnings_process_device: "warnings (snd (process_device pyfloat device e)) = warnings e"
proof -
  have "warnings (snd (for_each (process_outlet pyfloat dl) os
      (snd (for_each (device_child pyfloat dl) cs (info msg e))))) = warnings e" for dl os cs msg
    by (simp add: warnings_for_each warnings_process_outlet warnings_device_child warnings_info)
  moreover have "warnings (snd (for_each (device_child pyfloat dl) cs (info msg e))) = warnings e"
    for dl cs msg
    by (simp add: warnings_for_each warnings_device_child warnings_info)
  ultimately show ?thesis
    by (auto simp: process_device_def Let_def warnings_info
        split: option.splits sum.splits prod.splits dest!: arg_cong [where f = snd])
qed

lemma warnings_process: "warnings (snd (process pyfloat (Returns body) e)) = warnings e"
  by (auto simp: process_def fetch_def warnings_info warnings_for_each warnings_process_device
      split: body.splits option.splits)

lemma for_each_raises_with:
  assumes "fst (for_each body xs e) = None"
    and "fst (body x (snd (for_each body xs e))) = Some err"
  shows "fst (for_each body (xs @ x # ys) e) = Some err"
  using assms
  by (cases "for_each body xs e"; cases "body x (snd (for_each body xs e))")
    (auto simp: for_each_append)

lemma outlet_raise_escapes_with:
  assumes "declared e"
    and "\<And>e'. declared e' \<Longrightarrow> fst (process_outlet pyfloat dl outlet e') = Some err"
    and "find_elem ''devices'' tree = Some devices"
    and "children devices = pre @ device # post"
    and "fst (for_each (process_device pyfloat) pre e) = None"
    and "label_dict device_labels (attrib device) = Inr dl"
    and "find_elem ''outlets'' device = Some outlets"
    and "children outlets = obefore @ outlet # oafter"
    and "fst (for_each (device_child pyfloat dl) (children device) e) = None"
    and "fst (for_each (process_outlet pyfloat dl) obefore e) = None"
  shows "fst (process pyfloat (Returns (WellFormed tree)) e) = Some err
    \<and> fst (start_export_loop pyfloat ((Returns (WellFormed tree), t) # cycles) e) = Some err"
proof -
  let ?e0 = "info ''Starting process..'' e"
  have d0: "declared ?e0" using assms(1) by (simp add: declared_info)
  have same: "shape e' = shape e" if "declared e'" for e' :: "'a exporter"
    using that assms(1) by (simp add: declared_def)
  have res: "process pyfloat (Returns (WellFormed tree)) e =
      for_each (process_device pyfloat) (pre @ device # post) ?e0"
    using assms(3,4) by (simp add: process_def fetch_def)
  have "fst (for_each (process_device pyfloat) pre ?e0) = fst (for_each (process_device pyfloat) pre e)"
    by (rule cellwise_fst [OF cellwise_for_each same [OF d0] refl]) (rule cellwise_process_device)
  with assms(5) have pre: "fst (for_each (process_device pyfloat) pre ?e0) = None" by simp
  let ?e1 = "snd (for_each (process_device pyfloat) pre ?e0)"
  have d1: "declared ?e1"
    by (rule declared_for_each [OF cellwise_process_device d0])
  from label_dict_device [OF assms(6)] obtain i ty where
    ty: "map_of (attrib device) ''type'' = Some ty" by blast
  let ?e2 = "info (''Processsing device '' @ ty) ?e1"
  have d2: "declared ?e2" using d1 by (simp add: declared_info)
  have "fst (for_each (device_child pyfloat dl) (children device) ?e2) =
      fst (for_each (device_child pyfloat dl) (children device) e)"
    by (rule cellwise_fst [OF cellwise_for_each same [OF d2] refl]) (rule cellwise_device_child)
  with assms(9) have fields: "fst (for_each (device_child pyfloat dl) (children device) ?e2) = None"
    by simp
  let ?e3 = "snd (for_each (device_child pyfloat dl) (children device) ?e2)"
  have d3: "declared ?e3"
    by (rule declared_for_each [OF cellwise_device_child d2])
  have "fst (for_each (process_outlet pyfloat dl) obefore ?e3) =
      fst (for_each (process_outlet pyfloat dl) obefore e)"
    by (rule cellwise_fst [OF cellwise_for_each same [OF d3] refl]) (rule cellwise_process_outlet)
  with assms(10) have ob: "fst (for_each (process_outlet pyfloat dl) obefore ?e3) = None"
    by simp
  have d4: "declared (snd (for_each (process_outlet pyfloat dl) obefore ?e3))"
    by (rule declared_for_each [OF cellwise_process_outlet d3])
  from assms(2) [OF d4]
  have "fst (for_each (process_outlet pyfloat dl) (obefore @ outlet # oafter) ?e3) = Some err"
    by (rule for_each_raises_with [OF ob])
  with fields ty assms(6,7,8)
  have "fst (process_device pyfloat device ?e1) = Some err"
    by (cases "for_each (device_child pyfloat dl) (children device) ?e2")
      (auto simp: process_device_def Let_def element_bool_def)
  then have "fst (for_each (process_device pyfloat) (pre @ device # post) ?e0) = Some err"
    by (rule for_each_raises_with [OF pre])
  then have "fst (process pyfloat (Returns (WellFormed tree)) e) = Some err"
    by (simp add: res)
  then show ?thesis
    by (cases "process pyfloat (Returns (WellFormed tree)) e")
      (auto simp: start_export_loop_def cycle_def)
qed

lemma outlet_kwargs_device:
  assumes "label_dict device_labels (attrib device) = Inr dl"
    and "map_of (attrib outlet) ''name'' = Some n" and "map_of (attrib outlet) ''num'' = Some m"
    and "map_of (attrib outlet) ''url'' = Some u"
  shows "\<exists>i t. map_of (attrib device) ''id'' = Some i \<and> map_of (attrib device) ''type'' = Some t
     \<and> dl = [(''id'', i), (''type'', t)]
     \<and> outlet_kwargs outlet dl =
         Inr [(''name'', n), (''num'', m), (''url'', u), (''id'', i), (''type'', t)]"
proof -
  from label_dict_device [OF assms(1)] obtain i t where
    "map_of (attrib device) ''id'' = Some i" "map_of (attrib device) ''type'' = Some t"
    "dl = [(''id'', i), (''type'', t)]"
    by blast
  with assms(2-4) show ?thesis
    by (simp add: outlet_kwargs_def outlet_labels_def dict_merge_def)
qed

lemma outlet_gauges_first_missing:
  assumes "\<forall>(k, m) \<in> set items. labelnames m \<noteq> [] \<and> mset (map fst kw) = mset (labelnames m)"
    and "attr \<in> fst ` set items"
    and "map_of (attrib outlet) attr = None"
    and "\<forall>a \<in> set (takeWhile (\<lambda>a. a \<noteq> attr) (map fst items)).
           \<exists>s v. map_of (attrib outlet) a = Some s \<and> pyfloat s = Some v"
  shows "fst (outlet_gauges pyfloat outlet kw items) = Some (KeyError attr)"
  using assms
proof (induction items)
  case Nil
  then show ?case by simp
next
  case (Cons p items)
  obtain a ma where p: "p = (a, ma)" by (cases p)
  with Cons.prems(1) have ok: "labelnames ma \<noteq> []" "mset (map fst kw) = mset (labelnames ma)"
    by auto
  show ?case
  proof (cases "a = attr")
    case True
    with p ok Cons.prems(3) show ?thesis by (simp add: labels_touch)
  next
    case False
    with p Cons.prems(4) obtain s v where s: "map_of (attrib outlet) a = Some s" "pyfloat s = Some v"
      by auto
    from False p Cons.prems have "fst (outlet_gauges pyfloat outlet kw items) = Some (KeyError attr)"
      by (intro Cons.IH) auto
    with p ok s show ?thesis
      by (cases "outlet_gauges pyfloat outlet kw items") (simp add: labels_touch)
  qed
qed

lemma outlet_gauges_ok:
  assumes "\<forall>(k, m) \<in> set items. labelnames m \<noteq> [] \<and> mset (map fst kw) = mset (labelnames m)"
    and "\<forall>a \<in> fst ` set items. \<exists>s v. map_of (attrib outlet) a = Some s \<and> pyfloat s = Some v"
  shows "fst (outlet_gauges pyfloat outlet kw items) = None"
  using assms
proof (induction items)
  case Nil
  then show ?case by simp
next
  case (Cons p items)
  obtain a ma where p: "p = (a, ma)" by (cases p)
  with Cons.prems(1) have ok: "labelnames ma \<noteq> []" "mset (map fst kw) = mset (labelnames ma)"
    by auto
  from p Cons.prems(2) obtain s v where s: "map_of (attrib outlet) a = Some s" "pyfloat s = Some v"
    by auto
  from Cons.prems have "fst (outlet_gauges pyfloat outlet kw items) = None"
    by (intro Cons.IH) auto
  with p ok s show ?case
    by (cases "outlet_gauges pyfloat outlet kw items") (simp add: labels_touch)
qed

lemma declared_outlet_items:
  assumes "declared e"
  shows "map fst (outlet_metrics e) = [''amps'', ''kwatthrs'', ''watts'']
    \<and> (\<forall>(k, m) \<in> set (outlet_metrics e). labelnames m = [''name'', ''num'', ''url'', ''id'', ''type''])"
  using declared_outlet_metrics [OF assms]
  by (auto simp: outlet_labels_def device_labels_def)

lemma missing_attribute_keyerror:
  assumes "declared e"
    and "attr \<in> {''amps'', ''kwatthrs'', ''watts''}"
    and "map_of (attrib outlet) attr = None"
    and "label_dict device_labels (attrib device) = Inr dl"
    and "map_of (attrib outlet) ''name'' \<noteq> None" and "map_of (attrib outlet) ''num'' \<noteq> None"
    and "map_of (attrib outlet) ''url'' \<noteq> None"
    and "\<forall>a \<in> set (takeWhile (\<lambda>a. a \<noteq> attr) [''amps'', ''kwatthrs'', ''watts'']).
           \<exists>s v. map_of (attrib outlet) a = Some s \<and> pyfloat s = Some v"
  shows "fst (process_outlet pyfloat dl outlet e) = Some (KeyError attr)"
proof -
  from assms(5-7) obtain n m u where at: "map_of (attrib outlet) ''name'' = Some n"
    "map_of (attrib outlet) ''num'' = Some m" "map_of (attrib outlet) ''url'' = Some u"
    by auto
  from outlet_kwargs_device [OF assms(4) at] obtain i t where
    kw: "outlet_kwargs outlet dl =
         Inr [(''name'', n), (''num'', m), (''url'', u), (''id'', i), (''type'', t)]"
    by blast
  let ?kw = "[(''name'', n), (''num'', m), (''url'', u), (''id'', i), (''type'', t)]"
  from declared_outlet_items [OF assms(1)]
  have keys: "map fst (outlet_metrics e) = [''amps'', ''kwatthrs'', ''watts'']"
    and ln: "\<forall>(k, m) \<in> set (outlet_metrics e). labelnames m = [''name'', ''num'', ''url'', ''id'', ''type'']"
    by simp_all
  have "fst (outlet_gauges pyfloat outlet ?kw (outlet_metrics e)) = Some (KeyError attr)"
  proof (rule outlet_gauges_first_missing)
    show "\<forall>(k, m) \<in> set (outlet_metrics e). labelnames m \<noteq> [] \<and> mset (map fst ?kw) = mset (labelnames m)"
      using ln by auto
    show "attr \<in> fst ` set (outlet_metrics e)"
      using assms(2) keys by (metis list.set_map insert_iff list.simps(15) empty_iff empty_set)
    show "map_of (attrib outlet) attr = None" by (rule assms(3))
    show "\<forall>a \<in> set (takeWhile (\<lambda>a. a \<noteq> attr) (map fst (outlet_metrics e))).
           \<exists>s v. map_of (attrib outlet) a = Some s \<and> pyfloat s = Some v"
      using assms(8) by (simp only: keys)
  qed
  with kw at show ?thesis
    by (cases "outlet_gauges pyfloat outlet ?kw (outlet_metrics e)")
      (auto simp: process_outlet_def Let_def info_def)
qed

lemma unknown_status_valueerror:
  assumes "declared e"
    and "map_of (attrib outlet) ''status'' = Some s"
    and "s \<noteq> ''On''" and "s \<noteq> ''Off''"
    and "label_dict device_labels (attrib device) = Inr dl"
    and "map_of (attrib outlet) ''name'' = Some n" and "map_of (attrib outlet) ''num'' = Some m"
    and "map_of (attrib outlet) ''url'' = Some u"
    and "\<forall>a \<in> {''amps'', ''kwatthrs'', ''watts''}.
           \<exists>s v. map_of (attrib outlet) a = Some s \<and> pyfloat s = Some v"
  shows "fst (process_outlet pyfloat dl outlet e) = Some ValueError
    \<and> (\<exists>i t. map_of (attrib device) ''id'' = Some i \<and> map_of (attrib device) ''type'' = Some t
        \<and> status_state (snd (process_outlet pyfloat dl outlet e)) [n, m, u, i, t] =
            (case samples (outlet_status e) [n, m, u, i, t] of
               None \<Rightarrow> Some ''On''
             | Some _ \<Rightarrow> status_state e [n, m, u, i, t]))"
proof -
  from outlet_kwargs_device [OF assms(5,6,7,8)] obtain i t where
    dev: "map_of (attrib device) ''id'' = Some i" "map_of (attrib device) ''type'' = Some t"
    and kw: "outlet_kwargs outlet dl =
         Inr [(''name'', n), (''num'', m), (''url'', u), (''id'', i), (''type'', t)]"
    by blast
  let ?kw = "[(''name'', n), (''num'', m), (''url'', u), (''id'', i), (''type'', t)]"
  let ?lv = "[n, m, u, i, t]"
  from declared_outlet_items [OF assms(1)]
  have keys: "map fst (outlet_metrics e) = [''amps'', ''kwatthrs'', ''watts'']"
    and ln: "\<forall>(k, m) \<in> set (outlet_metrics e). labelnames m = [''name'', ''num'', ''url'', ''id'', ''type'']"
    by simp_all
  from declared_outlet_status [OF assms(1)]
  have st: "labelnames (outlet_status e) = [''name'', ''num'', ''url'', ''id'', ''type'']"
    "states (outlet_status e) = [''On'', ''Off'']"
    by (simp_all add: outlet_labels_def device_labels_def)
  have lv: "label_values [''name'', ''num'', ''url'', ''id'', ''type''] ?kw = ?lv"
    by (simp add: label_values_def)
  have g: "fst (outlet_gauges pyfloat outlet ?kw (outlet_metrics e)) = None"
  proof (rule outlet_gauges_ok)
    show "\<forall>(k, m) \<in> set (outlet_metrics e). labelnames m \<noteq> [] \<and> mset (map fst ?kw) = mset (labelnames m)"
      using ln by auto
    have "fst ` set (outlet_metrics e) = {''amps'', ''kwatthrs'', ''watts''}"
      using keys by (metis list.set_map list.simps(15) empty_set)
    with assms(9) show "\<forall>a \<in> fst ` set (outlet_metrics e).
        \<exists>s v. map_of (attrib outlet) a = Some s \<and> pyfloat s = Some v"
      by simp
  qed
  obtain items where items: "outlet_gauges pyfloat outlet ?kw (outlet_metrics e) = (None, items)"
    using g by (cases "outlet_gauges pyfloat outlet ?kw (outlet_metrics e)") auto
  have res: "process_outlet pyfloat dl outlet e =
      (Some ValueError,
       (info (''Processsing outlet '' @ m) e)
         \<lparr>outlet_metrics := items, outlet_status := touch (only ?lv Ensured) (outlet_status e)\<rparr>)"
    using kw assms(2,3,4,7) items st lv
    by (simp add: process_outlet_def Let_def info_def labels_touch enum_state_touch touch_def)
  have "status_state (snd (process_outlet pyfloat dl outlet e)) ?lv =
      (case samples (outlet_status e) ?lv of None \<Rightarrow> Some ''On'' | Some _ \<Rightarrow> status_state e ?lv)"
    using st
    by (cases "samples (outlet_status e) ?lv")
      (simp_all add: res status_state_def touch_def only_def info_def)
  with res dev show ?thesis by simp
qed

lemmas eval_defs =
  process_document process_device_def device_of_def find_elem_def outlets_of_def
  element_bool_def device_labels_def outlet_labels_def device_child_def realpower_field_def
  init_exporter_def Gauge_def Enum_def labels_def label_values_def Let_def gauge_set_def
  process_outlet_def outlet_kwargs_def dict_merge_def info_def enum_state_def
  outlet_gauge_def device_gauge_def status_state_def

lemma decimal_float_samples:
  "decimal_float ''123.4'' = Some 123.4" "decimal_float ''0.5'' = Some 0.5"
  "decimal_float ''2.25'' = Some 2.25" "decimal_float ''60'' = Some 60"
  "decimal_float ''1.5'' = Some 1.5" "decimal_float ''3'' = Some 3"
  "decimal_float ''180'' = Some 180"
  by (simp_all add: decimal_float_def unsigned_decimal_def)

section \<open>The claims\<close>

text \<open>
  C1. A cycle whose fetch fails at the connection level: the claim is that \<^verbatim>\<open>process\<close>
  completes without an exception leaving the polling loop, that the failure is logged as
  a warning and that every instrument keeps its value for every label set. The code logs
  the warning and keeps the instruments, but then reads the unassigned \<^verbatim>\<open>resp\<close>: the
  \<^verbatim>\<open>UnboundLocalError\<close> leaves \<^verbatim>\<open>process\<close> and the polling loop.
\<close>

theorem connection_failure_raises:
  "process pyfloat (RaisesConnectionError strerror) e =
     (Some UnboundLocalError,
      warn (''Exception while connecting to device: '' @
            (case strerror of None \<Rightarrow> ''None'' | Some s \<Rightarrow> s))
        (info ''Starting process..'' e))
   \<and> fst (start_export_loop pyfloat ((RaisesConnectionError strerror, t) # cycles) e) =
        Some UnboundLocalError
   \<and> instruments (snd (start_export_loop pyfloat ((RaisesConnectionError strerror, t) # cycles) e)) =
        instruments e"
  by (simp add: process_def fetch_def start_export_loop_def cycle_def instruments_warn
      instruments_info)

theorem connection_failure_raises_witness:
  "start_export_loop decimal_float
     [(RaisesConnectionError None, ''5.01''), (Returns (WellFormed (document [])), ''0.02'')]
     (init_exporter :: real exporter) =
   (Some UnboundLocalError,
    init_exporter\<lparr>logger :=
      [(INFO, ''Starting process..''),
       (WARNING, ''Exception while connecting to device: None'')]\<rparr>)"
  using connection_failure_raises [of decimal_float None "init_exporter :: real exporter"]
  by (simp add: start_export_loop_def cycle_def info_def warn_def init_exporter_def)

text \<open>
  C2. A device without \<^verbatim>\<open>outlets\<close> container: the claim is that its recognized fields
  are still published, no outlet metric is touched and no error is raised. As amended:
  \<^verbatim>\<open>process_device\<close> returns after its log message; no outlet metric is touched, no
  error is raised by a device that has a \<^verbatim>\<open>type\<close>, and no device gauge is set either.
\<close>

theorem absent_outlets_skip_device:
  assumes "find_elem ''outlets'' device = None"
  shows "process_device pyfloat device e =
           (case map_of (attrib device) ''type'' of
              None \<Rightarrow> (Some (KeyError ''type''), e)
            | Some t \<Rightarrow> (None, info (''Processsing device '' @ t) e))
         \<and> instruments (snd (process_device pyfloat device e)) = instruments e"
  using assms
  by (simp add: process_device_def instruments_info split: option.splits)

theorem absent_outlets_skip_device_witness:
  "process_device decimal_float (device_of [realpower_field]) (init_exporter :: real exporter) =
     (None, info ''Processsing device pdu'' init_exporter)"
  using absent_outlets_skip_device [of "device_of [realpower_field]"
      decimal_float "init_exporter :: real exporter"]
  by (simp add: device_of_def find_elem_def realpower_field_def)

theorem absent_outlets_counterexample:
  "fst (process decimal_float (Returns (WellFormed (document [realpower_field])))
         (init_exporter :: real exporter)) = None
   \<and> device_gauge (snd (process decimal_float (Returns (WellFormed (document [realpower_field])))
         (init_exporter :: real exporter))) ''RealPower-A'' [''1'', ''pdu''] = None"
  by (simp add: process_document process_device_def device_of_def find_elem_def
      realpower_field_def device_gauge_def info_def init_exporter_def Gauge_def)

text \<open>
  C3. A fetched body that is not well-formed XML: the claim is that the cycle completes,
  with a warning logged and the instruments unchanged. As amended: the \<^verbatim>\<open>ParseError\<close>
  leaves \<^verbatim>\<open>process\<close> and the polling loop, nothing but the starting message is logged,
  and every instrument keeps its value for every label set.
\<close>

theorem malformed_body_raises:
  "process pyfloat (Returns NotWellFormed) e = (Some ParseError, info ''Starting process..'' e)
   \<and> start_export_loop pyfloat ((Returns NotWellFormed, t) # cycles) e =
        (Some ParseError, info ''Starting process..'' e)
   \<and> instruments (snd (start_export_loop pyfloat ((Returns NotWellFormed, t) # cycles) e)) =
        instruments e
   \<and> warnings (snd (start_export_loop pyfloat ((Returns NotWellFormed, t) # cycles) e)) =
        warnings e"
  by (simp add: process_def fetch_def start_export_loop_def cycle_def instruments_info
      warnings_info)

theorem malformed_body_raises_witness:
  "process decimal_float (Returns NotWellFormed) (init_exporter :: real exporter) =
     (Some ParseError, init_exporter\<lparr>logger := [(INFO, ''Starting process..'')]\<rparr>)"
  using malformed_body_raises [of decimal_float "init_exporter :: real exporter"]
  by (simp add: info_def init_exporter_def)

theorem malformed_body_counterexample:
  "fst (start_export_loop decimal_float
          [(Returns NotWellFormed, ''0.01''), (Returns (WellFormed (document [])), ''0.02'')]
          (init_exporter :: real exporter)) = Some ParseError
   \<and> logger (snd (start_export_loop decimal_float
          [(Returns NotWellFormed, ''0.01''), (Returns (WellFormed (document [])), ''0.02'')]
          (init_exporter :: real exporter))) = [(INFO, ''Starting process..'')]"
  by (simp add: start_export_loop_def cycle_def process_def fetch_def info_def init_exporter_def)

text \<open>
  C4. An outlet without one of the attributes \<^verbatim>\<open>amps\<close>, \<^verbatim>\<open>kwatthrs\<close>, \<^verbatim>\<open>watts\<close>: the
  claim is that only this outlet is skipped, with a warning, and that the cycle goes on.
  As amended: \<^verbatim>\<open>process_outlet\<close> raises on such an outlet; the exception ends the loop
  over the outlets of the device, so that the outlets after it are not processed; no
  warning is logged, by \<^verbatim>\<open>process_outlet\<close> or by \<^verbatim>\<open>process\<close>; and when the devices,
  fields and outlets before it are processed without error, the exception leaves
  \<^verbatim>\<open>process\<close> and the polling loop. The exception is the \<^verbatim>\<open>KeyError\<close> of the missing
  attribute when no earlier step on the outlet raises: the labels are those of a device,
  the outlet has \<^verbatim>\<open>name\<close>, \<^verbatim>\<open>num\<close> and \<^verbatim>\<open>url\<close>, and the attributes before the missing
  one, in the order \<^verbatim>\<open>amps\<close>, \<^verbatim>\<open>kwatthrs\<close>, \<^verbatim>\<open>watts\<close>, are there and are numbers.
  Whether a step raises does not depend on the values the instruments hold, so "without
  error" is stated for the state \<open>e\<close> the cycle starts in.
\<close>

theorem missing_attribute_raises:
  assumes "declared e"
    and "attr \<in> {''amps'', ''kwatthrs'', ''watts''}"
    and "map_of (attrib outlet) attr = None"
  shows "fst (process_outlet pyfloat dl outlet e) \<noteq> None
    \<and> for_each (process_outlet pyfloat dl) (outlet # rest) e = process_outlet pyfloat dl outlet e
    \<and> warnings (snd (process_outlet pyfloat dl outlet e)) = warnings e
    \<and> warnings (snd (process pyfloat (Returns (WellFormed tree)) e)) = warnings e
    \<and> (find_elem ''devices'' tree = Some devices \<and> children devices = pre @ device # post
        \<and> fst (for_each (process_device pyfloat) pre e) = None
        \<and> label_dict device_labels (attrib device) = Inr dl
        \<and> find_elem ''outlets'' device = Some outlets
        \<and> children outlets = obefore @ outlet # oafter
        \<and> fst (for_each (device_child pyfloat dl) (children device) e) = None
        \<and> fst (for_each (process_outlet pyfloat dl) obefore e) = None
       \<longrightarrow> fst (process pyfloat (Returns (WellFormed tree)) e) \<noteq> None
         \<and> fst (start_export_loop pyfloat ((Returns (WellFormed tree), t) # cycles) e) \<noteq> None)
    \<and> (label_dict device_labels (attrib device) = Inr dl
        \<and> map_of (attrib outlet) ''name'' \<noteq> None \<and> map_of (attrib outlet) ''num'' \<noteq> None
        \<and> map_of (attrib outlet) ''url'' \<noteq> None
        \<and> (\<forall>a \<in> set (takeWhile (\<lambda>a. a \<noteq> attr) [''amps'', ''kwatthrs'', ''watts'']).
              \<exists>s v. map_of (attrib outlet) a = Some s \<and> pyfloat s = Some v)
       \<longrightarrow> fst (process_outlet pyfloat dl outlet e) = Some (KeyError attr)
         \<and> (find_elem ''devices'' tree = Some devices \<and> children devices = pre @ device # post
             \<and> fst (for_each (process_device pyfloat) pre e) = None
             \<and> find_elem ''outlets'' device = Some outlets
             \<and> children outlets = obefore @ outlet # oafter
             \<and> fst (for_each (device_child pyfloat dl) (children device) e) = None
             \<and> fst (for_each (process_outlet pyfloat dl) obefore e) = None
            \<longrightarrow> fst (process pyfloat (Returns (WellFormed tree)) e) = Some (KeyError attr)
              \<and> fst (start_export_loop pyfloat ((Returns (WellFormed tree), t) # cycles) e) =
                  Some (KeyError attr)))"
proof -
  have raises: "fst (process_outlet pyfloat dl outlet e) \<noteq> None"
    by (rule missing_attribute_raises_aux [OF assms])
  then have loop: "for_each (process_outlet pyfloat dl) (outlet # rest) e =
      process_outlet pyfloat dl outlet e"
    by (rule for_each_raises)
  have w1: "warnings (snd (process_outlet pyfloat dl outlet e)) = warnings e"
    by (rule warnings_process_outlet)
  have w2: "warnings (snd (process pyfloat (Returns (WellFormed tree)) e)) = warnings e"
    by (rule warnings_process)
  have escapes: "fst (process pyfloat (Returns (WellFormed tree)) e) \<noteq> None
      \<and> fst (start_export_loop pyfloat ((Returns (WellFormed tree), t) # cycles) e) \<noteq> None"
    if "find_elem ''devices'' tree = Some devices \<and> children devices = pre @ device # post
        \<and> fst (for_each (process_device pyfloat) pre e) = None
        \<and> label_dict device_labels (attrib device) = Inr dl
        \<and> find_elem ''outlets'' device = Some outlets
        \<and> children outlets = obefore @ outlet # oafter
        \<and> fst (for_each (device_child pyfloat dl) (children device) e) = None
        \<and> fst (for_each (process_outlet pyfloat dl) obefore e) = None"
    using that
    by (intro outlet_raise_escapes [OF assms(1), where dl = dl and outlet = outlet]
        missing_attribute_raises_aux [OF _ assms(2,3)]) auto
  have pinned: "fst (process_outlet pyfloat dl outlet e') = Some (KeyError attr)"
    if "label_dict device_labels (attrib device) = Inr dl
        \<and> map_of (attrib outlet) ''name'' \<noteq> None \<and> map_of (attrib outlet) ''num'' \<noteq> None
        \<and> map_of (attrib outlet) ''url'' \<noteq> None
        \<and> (\<forall>a \<in> set (takeWhile (\<lambda>a. a \<noteq> attr) [''amps'', ''kwatthrs'', ''watts'']).
              \<exists>s v. map_of (attrib outlet) a = Some s \<and> pyfloat s = Some v)"
      and "declared e'" for e' :: "'a exporter"
    using that
    by (intro missing_attribute_keyerror [where device = device and pyfloat = pyfloat]
        assms(2,3)) simp_all
  have pinned_escapes: "fst (process pyfloat (Returns (WellFormed tree)) e) = Some (KeyError attr)
      \<and> fst (start_export_loop pyfloat ((Returns (WellFormed tree), t) # cycles) e) =
          Some (KeyError attr)"
    if p: "label_dict device_labels (attrib device) = Inr dl
        \<and> map_of (attrib outlet) ''name'' \<noteq> None \<and> map_of (attrib outlet) ''num'' \<noteq> None
        \<and> map_of (attrib outlet) ''url'' \<noteq> None
        \<and> (\<forall>a \<in> set (takeWhile (\<lambda>a. a \<noteq> attr) [''amps'', ''kwatthrs'', ''watts'']).
              \<exists>s v. map_of (attrib outlet) a = Some s \<and> pyfloat s = Some v)"
      and d: "find_elem ''devices'' tree = Some devices \<and> children devices = pre @ device # post
             \<and> fst (for_each (process_device pyfloat) pre e) = None
             \<and> find_elem ''outlets'' device = Some outlets
             \<and> children outlets = obefore @ outlet # oafter
             \<and> fst (for_each (device_child pyfloat dl) (children device) e) = None
             \<and> fst (for_each (process_outlet pyfloat dl) obefore e) = None"
    using p d
    by (intro outlet_raise_escapes_with [OF assms(1), where dl = dl and outlet = outlet]
        pinned [OF p]) auto
  from raises loop w1 w2 escapes pinned [OF _ assms(1)] pinned_escapes show ?thesis
    by blast
qed

theorem missing_attribute_raises_witness:
  "fst (process_outlet decimal_float [(''id'', ''1''), (''type'', ''pdu'')] outlet_no_amps
          (init_exporter :: real exporter)) = Some (KeyError ''amps'')
   \<and> for_each (process_outlet decimal_float [(''id'', ''1''), (''type'', ''pdu'')])
        [outlet_no_amps, outlet_B] (init_exporter :: real exporter) =
      process_outlet decimal_float [(''id'', ''1''), (''type'', ''pdu'')] outlet_no_amps
        init_exporter
   \<and> fst (start_export_loop decimal_float
        [(Returns (WellFormed (document [realpower_field, outlets_of [outlet_A, outlet_no_amps, outlet_B]])),
          ''0.01'')]
        (init_exporter :: real exporter)) = Some (KeyError ''amps'')"
proof -
  let ?cs = "[realpower_field, outlets_of [outlet_A, outlet_no_amps, outlet_B]]"
  have devices: "find_elem ''devices'' (document ?cs) = Some (Element ''devices'' [] [device_of ?cs])"
    by (simp add: find_elem_def document_def)
  have outlets: "find_elem ''outlets'' (device_of ?cs) =
      Some (outlets_of [outlet_A, outlet_no_amps, outlet_B])"
    by (simp add: find_elem_def device_of_def realpower_field_def outlets_of_def)
  have dl: "label_dict device_labels (attrib (device_of ?cs)) = Inr [(''id'', ''1''), (''type'', ''pdu'')]"
    by (simp add: device_labels_def device_of_def)
  have fields: "fst (for_each (device_child decimal_float [(''id'', ''1''), (''type'', ''pdu'')])
      (children (device_of ?cs)) (init_exporter :: real exporter)) = None"
    by (simp add: eval_defs decimal_float_samples)
  have before: "fst (for_each (process_outlet decimal_float [(''id'', ''1''), (''type'', ''pdu'')])
      [outlet_A] (init_exporter :: real exporter)) = None"
    by (simp add: eval_defs outlet_A_def decimal_float_samples)
  have missing: "map_of (attrib outlet_no_amps) ''amps'' = None"
    by (simp add: outlet_no_amps_def)
  have labels: "map_of (attrib outlet_no_amps) ''name'' \<noteq> None"
    "map_of (attrib outlet_no_amps) ''num'' \<noteq> None" "map_of (attrib outlet_no_amps) ''url'' \<noteq> None"
    by (simp_all add: outlet_no_amps_def)
  from missing_attribute_raises [OF declared_init _ missing,
      where pyfloat = decimal_float and dl = "[(''id'', ''1''), (''type'', ''pdu'')]"
        and rest = "[outlet_B]" and tree = "document ?cs"
        and devices = "Element ''devices'' [] [device_of ?cs]" and pre = "[]"
        and device = "device_of ?cs" and post = "[]"
        and outlets = "outlets_of [outlet_A, outlet_no_amps, outlet_B]"
        and obefore = "[outlet_A]" and oafter = "[outlet_B]" and t = "''0.01''"
        and cycles = "[]"]
    devices outlets dl fields before labels
  show ?thesis
    by (simp add: outlets_of_def)
qed

theorem missing_attribute_counterexample:
  "fst (process decimal_float
          (Returns (WellFormed (document [outlets_of [outlet_no_amps, outlet_B]])))
          (init_exporter :: real exporter)) = Some (KeyError ''amps'')
   \<and> outlet_gauge (snd (process decimal_float
          (Returns (WellFormed (document [outlets_of [outlet_no_amps, outlet_B]])))
          (init_exporter :: real exporter))) ''watts'' [''B'', ''2'', ''u2'', ''1'', ''pdu''] = None
   \<and> logger (snd (process decimal_float
          (Returns (WellFormed (document [outlets_of [outlet_no_amps, outlet_B]])))
          (init_exporter :: real exporter))) =
       [(INFO, ''Starting process..''), (INFO, ''Processsing device pdu''),
        (INFO, ''Processsing outlet 1'')]"
  by (simp add: eval_defs outlet_no_amps_def outlet_B_def decimal_float_samples)

text \<open>
  C5. An outlet whose \<^verbatim>\<open>status\<close> is neither \<^verbatim>\<open>On\<close> nor \<^verbatim>\<open>Off\<close>: the claim is that the
  state of the status instrument stays as it is for that label set, that this is logged
  and that the cycle goes on. As amended: \<^verbatim>\<open>process_outlet\<close> raises on such an outlet;
  the exception ends the loop over the outlets and, when the devices, fields and outlets
  before it are processed without error, leaves \<^verbatim>\<open>process\<close> and the polling loop; no
  warning is logged; the status instrument is never set to a new state: every label set
  keeps the state it has, and a label set that has none either stays so or is created in
  the first state, \<^verbatim>\<open>On\<close>. When no earlier step on the outlet raises (the labels are
  those of a device, the outlet has \<^verbatim>\<open>name\<close>, \<^verbatim>\<open>num\<close>, \<^verbatim>\<open>url\<close> and its three numeric
  attributes are there and are numbers), the exception is the \<^verbatim>\<open>ValueError\<close> of
  \<^verbatim>\<open>Enum.state\<close>, and the outlet's label set is created in state \<^verbatim>\<open>On\<close> if it has no
  child yet and keeps its state otherwise.
\<close>

theorem unknown_status_raises:
  assumes "declared e"
    and "map_of (attrib outlet) ''status'' = Some s"
    and "s \<noteq> ''On''" and "s \<noteq> ''Off''"
  shows "fst (process_outlet pyfloat dl outlet e) \<noteq> None
    \<and> for_each (process_outlet pyfloat dl) (outlet # rest) e = process_outlet pyfloat dl outlet e
    \<and> (\<forall>lv. status_state (snd (process_outlet pyfloat dl outlet e)) lv = status_state e lv
            \<or> status_state e lv = None
              \<and> status_state (snd (process_outlet pyfloat dl outlet e)) lv = Some ''On'')
    \<and> warnings (snd (process_outlet pyfloat dl outlet e)) = warnings e
    \<and> warnings (snd (process pyfloat (Returns (WellFormed tree)) e)) = warnings e
    \<and> (find_elem ''devices'' tree = Some devices \<and> children devices = pre @ device # post
        \<and> fst (for_each (process_device pyfloat) pre e) = None
        \<and> label_dict device_labels (attrib device) = Inr dl
        \<and> find_elem ''outlets'' device = Some outlets
        \<and> children outlets = obefore @ outlet # oafter
        \<and> fst (for_each (device_child pyfloat dl) (children device) e) = None
        \<and> fst (for_each (process_outlet pyfloat dl) obefore e) = None
       \<longrightarrow> fst (process pyfloat (Returns (WellFormed tree)) e) \<noteq> None
         \<and> fst (start_export_loop pyfloat ((Returns (WellFormed tree), t) # cycles) e) \<noteq> None)
    \<and> (label_dict device_labels (attrib device) = Inr dl
        \<and> map_of (attrib outlet) ''name'' = Some n \<and> map_of (attrib outlet) ''num'' = Some m
        \<and> map_of (attrib outlet) ''url'' = Some u
        \<and> (\<forall>a \<in> {''amps'', ''kwatthrs'', ''watts''}.
              \<exists>s v. map_of (attrib outlet) a = Some s \<and> pyfloat s = Some v)
       \<longrightarrow> fst (process_outlet pyfloat dl outlet e) = Some ValueError
         \<and> (\<exists>i ty. map_of (attrib device) ''id'' = Some i \<and> map_of (attrib device) ''type'' = Some ty
             \<and> status_state (snd (process_outlet pyfloat dl outlet e)) [n, m, u, i, ty] =
                 (case samples (outlet_status e) [n, m, u, i, ty] of
                    None \<Rightarrow> Some ''On''
                  | Some _ \<Rightarrow> status_state e [n, m, u, i, ty]))
         \<and> (find_elem ''devices'' tree = Some devices \<and> children devices = pre @ device # post
             \<and> fst (for_each (process_device pyfloat) pre e) = None
             \<and> find_elem ''outlets'' device = Some outlets
             \<and> children outlets = obefore @ outlet # oafter
             \<and> fst (for_each (device_child pyfloat dl) (children device) e) = None
             \<and> fst (for_each (process_outlet pyfloat dl) obefore e) = None
            \<longrightarrow> fst (process pyfloat (Returns (WellFormed tree)) e) = Some ValueError
              \<and> fst (start_export_loop pyfloat ((Returns (WellFormed tree), t) # cycles) e) =
                  Some ValueError))"
proof -
  have raises: "fst (process_outlet pyfloat dl outlet e) \<noteq> None"
    by (rule unknown_status_raises_aux [OF assms])
  then have loop: "for_each (process_outlet pyfloat dl) (outlet # rest) e =
      process_outlet pyfloat dl outlet e"
    by (rule for_each_raises)
  have state: "\<forall>lv. status_state (snd (process_outlet pyfloat dl outlet e)) lv = status_state e lv
            \<or> status_state e lv = None
              \<and> status_state (snd (process_outlet pyfloat dl outlet e)) lv = Some ''On''"
    using unknown_status_state [OF assms] by blast
  have w1: "warnings (snd (process_outlet pyfloat dl outlet e)) = warnings e"
    by (rule warnings_process_outlet)
  have w2: "warnings (snd (process pyfloat (Returns (WellFormed tree)) e)) = warnings e"
    by (rule warnings_process)
  have escapes: "fst (process pyfloat (Returns (WellFormed tree)) e) \<noteq> None
      \<and> fst (start_export_loop pyfloat ((Returns (WellFormed tree), t) # cycles) e) \<noteq> None"
    if "find_elem ''devices'' tree = Some devices \<and> children devices = pre @ device # post
        \<and> fst (for_each (process_device pyfloat) pre e) = None
        \<and> label_dict device_labels (attrib device) = Inr dl
        \<and> find_elem ''outlets'' device = Some outlets
        \<and> children outlets = obefore @ outlet # oafter
        \<and> fst (for_each (device_child pyfloat dl) (children device) e) = None
        \<and> fst (for_each (process_outlet pyfloat dl) obefore e) = None"
    using that
    by (intro outlet_raise_escapes [OF assms(1), where dl = dl and outlet = outlet]
        unknown_status_raises_aux [OF _ assms(2,3,4)]) auto
  have pinned: "fst (process_outlet pyfloat dl outlet e') = Some ValueError
      \<and> (\<exists>i ty. map_of (attrib device) ''id'' = Some i \<and> map_of (attrib device) ''type'' = Some ty
          \<and> status_state (snd (process_outlet pyfloat dl outlet e')) [n, m, u, i, ty] =
              (case samples (outlet_status e') [n, m, u, i, ty] of
                 None \<Rightarrow> Some ''On''
               | Some _ \<Rightarrow> status_state e' [n, m, u, i, ty]))"
    if "label_dict device_labels (attrib device) = Inr dl
        \<and> map_of (attrib outlet) ''name'' = Some n \<and> map_of (attrib outlet) ''num'' = Some m
        \<and> map_of (attrib outlet) ''url'' = Some u
        \<and> (\<forall>a \<in> {''amps'', ''kwatthrs'', ''watts''}.
              \<exists>s v. map_of (attrib outlet) a = Some s \<and> pyfloat s = Some v)"
      and "declared e'" for e' :: "'a exporter"
    using unknown_status_valueerror [OF that(2) assms(2,3,4), of device dl n m u pyfloat] that(1)
    by simp
  have pinned_escapes: "fst (process pyfloat (Returns (WellFormed tree)) e) = Some ValueError
      \<and> fst (start_export_loop pyfloat ((Returns (WellFormed tree), t) # cycles) e) =
          Some ValueError"
    if p: "label_dict device_labels (attrib device) = Inr dl
        \<and> map_of (attrib outlet) ''name'' = Some n \<and> map_of (attrib outlet) ''num'' = Some m
        \<and> map_of (attrib outlet) ''url'' = Some u
        \<and> (\<forall>a \<in> {''amps'', ''kwatthrs'', ''watts''}.
              \<exists>s v. map_of (attrib outlet) a = Some s \<and> pyfloat s = Some v)"
      and d: "find_elem ''devices'' tree = Some devices \<and> children devices = pre @ device # post
             \<and> fst (for_each (process_device pyfloat) pre e) = None
             \<and> find_elem ''outlets'' device = Some outlets
             \<and> children outlets = obefore @ outlet # oafter
             \<and> fst (for_each (device_child pyfloat dl) (children device) e) = None
             \<and> fst (for_each (process_outlet pyfloat dl) obefore e) = None"
  proof -
    have "fst (process_outlet pyfloat dl outlet e') = Some ValueError" if "declared e'"
      for e' :: "'a exporter"
      using pinned [OF p that] by simp
    with p d show ?thesis
      by (intro outlet_raise_escapes_with [OF assms(1), where dl = dl and outlet = outlet]) auto
  qed
  from raises loop state w1 w2 escapes pinned [OF _ assms(1)] pinned_escapes show ?thesis
    by blast
qed

theorem unknown_status_raises_witness:
  "fst (process_outlet decimal_float [(''id'', ''1''), (''type'', ''pdu'')] outlet_standby
          (init_exporter :: real exporter)) = Some ValueError
   \<and> for_each (process_outlet decimal_float [(''id'', ''1''), (''type'', ''pdu'')])
        [outlet_standby, outlet_B] (init_exporter :: real exporter) =
      process_outlet decimal_float [(''id'', ''1''), (''type'', ''pdu'')] outlet_standby
        init_exporter
   \<and> fst (start_export_loop decimal_float
        [(Returns (WellFormed (document [realpower_field, outlets_of [outlet_A, outlet_standby, outlet_B]])),
          ''0.01'')]
        (init_exporter :: real exporter)) = Some ValueError"
proof -
  let ?cs = "[realpower_field, outlets_of [outlet_A, outlet_standby, outlet_B]]"
  have devices: "find_elem ''devices'' (document ?cs) = Some (Element ''devices'' [] [device_of ?cs])"
    by (simp add: find_elem_def document_def)
  have outlets: "find_elem ''outlets'' (device_of ?cs) =
      Some (outlets_of [outlet_A, outlet_standby, outlet_B])"
    by (simp add: find_elem_def device_of_def realpower_field_def outlets_of_def)
  have dl: "label_dict device_labels (attrib (device_of ?cs)) = Inr [(''id'', ''1''), (''type'', ''pdu'')]"
    by (simp add: device_labels_def device_of_def)
  have fields: "fst (for_each (device_child decimal_float [(''id'', ''1''), (''type'', ''pdu'')])
      (children (device_of ?cs)) (init_exporter :: real exporter)) = None"
    by (simp add: eval_defs decimal_float_samples)
  have before: "fst (for_each (process_outlet decimal_float [(''id'', ''1''), (''type'', ''pdu'')])
      [outlet_A] (init_exporter :: real exporter)) = None"
    by (simp add: eval_defs outlet_A_def decimal_float_samples)
  have status: "map_of (attrib outlet_standby) ''status'' = Some ''Standby''"
    by (simp add: outlet_standby_def)
  have labels: "map_of (attrib outlet_standby) ''name'' = Some ''A''"
    "map_of (attrib outlet_standby) ''num'' = Some ''1''"
    "map_of (attrib outlet_standby) ''url'' = Some ''u1''"
    by (simp_all add: outlet_standby_def)
  have floats: "\<forall>a \<in> {''amps'', ''kwatthrs'', ''watts''}.
      \<exists>s v. map_of (attrib outlet_standby) a = Some s \<and> decimal_float s = Some v"
  proof
    fix a :: string assume "a \<in> {''amps'', ''kwatthrs'', ''watts''}"
    then consider "a = ''amps''" | "a = ''kwatthrs''" | "a = ''watts''" by auto
    moreover have "map_of (attrib outlet_standby) ''amps'' = Some ''0.5''"
      "map_of (attrib outlet_standby) ''kwatthrs'' = Some ''2.25''"
      "map_of (attrib outlet_standby) ''watts'' = Some ''60''"
      by (simp_all add: outlet_standby_def)
    ultimately show "\<exists>s v. map_of (attrib outlet_standby) a = Some s \<and> decimal_float s = Some v"
      using decimal_float_samples(2,3,4) by cases blast+
  qed
  from unknown_status_raises [OF declared_init status,
      where pyfloat = decimal_float and dl = "[(''id'', ''1''), (''type'', ''pdu'')]"
        and rest = "[outlet_B]" and tree = "document ?cs"
        and devices = "Element ''devices'' [] [device_of ?cs]" and pre = "[]"
        and device = "device_of ?cs" and post = "[]"
        and outlets = "outlets_of [outlet_A, outlet_standby, outlet_B]"
        and obefore = "[outlet_A]" and oafter = "[outlet_B]" and t = "''0.01''"
        and cycles = "[]" and n = "''A''" and m = "''1''" and u = "''u1''"]
    devices outlets dl fields before labels floats
  show ?thesis
    by (simp add: outlets_of_def)
qed

theorem unknown_status_counterexample:
  "fst (process decimal_float
          (Returns (WellFormed (document [outlets_of [outlet_standby, outlet_B]])))
          (init_exporter :: real exporter)) = Some ValueError
   \<and> status_state (init_exporter :: real exporter) [''A'', ''1'', ''u1'', ''1'', ''pdu''] = None
   \<and> status_state (snd (process decimal_float
          (Returns (WellFormed (document [outlets_of [outlet_standby, outlet_B]])))
          (init_exporter :: real exporter))) [''A'', ''1'', ''u1'', ''1'', ''pdu''] = Some ''On''
   \<and> outlet_gauge (snd (process decimal_float
          (Returns (WellFormed (document [outlets_of [outlet_standby, outlet_B]])))
          (init_exporter :: real exporter))) ''amps'' [''B'', ''2'', ''u2'', ''1'', ''pdu''] = None"
  by (simp add: eval_defs outlet_standby_def outlet_B_def decimal_float_samples)

text \<open>
  C6. A document with a device \<^verbatim>\<open>id="1" type="pdu"\<close> and a field \<^verbatim>\<open>RealPower-A\<close> of
  value \<^verbatim>\<open>123.4\<close>: the claim is that \<^verbatim>\<open>pdu_realpower\<close> reads 123.4 at these labels after
  processing. As amended, this holds when the device has an \<^verbatim>\<open>outlets\<close> container with
  at least one child, the devices and the children of the device that come before are
  processed without error, no later field of the device has the same key and no later
  device the same labels. It then holds whatever the outlets do, also when one of them
  raises. The value is the one \<^verbatim>\<open>float\<close> returns for \<^verbatim>\<open>"123.4"\<close>.
\<close>

theorem realpower_published:
  assumes "declared e"
    and "find_elem ''devices'' tree = Some devices"
    and "children devices = pre @ device # post"
    and "fst (for_each (process_device pyfloat) pre e) = None"
    and "map_of (attrib device) ''id'' = Some ''1''"
    and "map_of (attrib device) ''type'' = Some ''pdu''"
    and "find_elem ''outlets'' device = Some outlets" and "children outlets \<noteq> []"
    and "children device = before @ field # after"
    and "fst (for_each (device_child pyfloat [(''id'', ''1''), (''type'', ''pdu'')]) before e) = None"
    and "tag field = ''field''" and "map_of (attrib field) ''key'' = Some ''RealPower-A''"
    and "map_of (attrib field) ''value'' = Some ''123.4''"
    and "pyfloat ''123.4'' = Some v"
    and "\<forall>c \<in> set after. tag c = ''field'' \<longrightarrow> map_of (attrib c) ''key'' \<noteq> Some ''RealPower-A''"
    and "\<forall>d \<in> set post. \<not> (map_of (attrib d) ''id'' = Some ''1'' \<and> map_of (attrib d) ''type'' = Some ''pdu'')"
  shows "device_gauge (snd (process pyfloat (Returns (WellFormed tree)) e)) ''RealPower-A''
           [''1'', ''pdu''] = Some v
    \<and> map_option metric_name
         (device_metrics (snd (process pyfloat (Returns (WellFormed tree)) e)) ''RealPower-A'') =
       Some ''pdu_realpower''"
proof -
  let ?k = "''RealPower-A''" and ?lv = "[''1'', ''pdu'']"
  let ?dl = "[(''id'', ''1''), (''type'', ''pdu'')]"
  let ?e0 = "info ''Starting process..'' e"
  let ?res = "process pyfloat (Returns (WellFormed tree)) e"
  have d0: "declared ?e0" using assms(1) by (simp add: declared_info)
  have s0: "shape ?e0 = shape e" using d0 assms(1) by (simp add: declared_def)
  have res: "?res = for_each (process_device pyfloat) (pre @ device # post) ?e0"
    using assms(2,3) by (simp add: process_def fetch_def)
  have "fst (for_each (process_device pyfloat) pre ?e0) = fst (for_each (process_device pyfloat) pre e)"
    by (rule cellwise_fst [OF cellwise_for_each s0 refl]) (rule cellwise_process_device)
  with assms(4) obtain e1 where e1: "for_each (process_device pyfloat) pre ?e0 = (None, e1)"
    by (cases "for_each (process_device pyfloat) pre ?e0") auto
  have d1: "declared e1"
    using declared_for_each [of ?e0 "process_device pyfloat" pre] d0 e1 cellwise_process_device
    by (metis snd_conv)
  let ?e2 = "info (''Processsing device '' @ ''pdu'') e1"
  have d2: "declared ?e2" using d1 by (simp add: declared_info)
  have s2: "shape ?e2 = shape e" using d2 assms(1) by (simp add: declared_def)
  have dl: "label_dict device_labels (attrib device) = Inr ?dl"
    using assms(5,6) by (simp add: device_labels_def)
  have "fst (for_each (device_child pyfloat ?dl) before ?e2) =
      fst (for_each (device_child pyfloat ?dl) before e)"
    by (rule cellwise_fst [OF cellwise_for_each s2 refl]) (rule cellwise_device_child)
  with assms(10) have before: "fst (for_each (device_child pyfloat ?dl) before ?e2) = None"
    by simp
  from declared_realpower [OF d2] have k2: "device_metrics ?e2 ?k \<noteq> None" by auto
  let ?e3 = "snd (for_each (device_child pyfloat ?dl) (children device) ?e2)"
  have g3: "device_gauge ?e3 ?k ?lv = Some v"
    using device_children_set [of ?e2 "children device" before field after pyfloat "''1''" "''pdu''"
        ?k "''123.4''" v] d2 assms(9) before assms(11-15) k2
    by simp
  have d3: "declared ?e3"
    by (rule declared_for_each [OF cellwise_device_child d2])
  let ?e4 = "snd (process_device pyfloat device e1)"
  have g4: "device_gauge ?e4 ?k ?lv = Some v"
    using g3 assms(6,7,8) dl
    by (auto simp: process_device_def Let_def element_bool_def process_outlets_device_gauge
        split: prod.splits option.splits)
  have d4: "declared ?e4" using d1 by (rule declared_process_device)
  have "device_gauge (snd (for_each (process_device pyfloat) post ?e4)) ?k ?lv = device_gauge ?e4 ?k ?lv"
    by (rule process_devices_frame [OF d4 assms(16)])
  with g4 have g5: "device_gauge (snd (for_each (process_device pyfloat) post ?e4)) ?k ?lv = Some v"
    by simp
  have "device_gauge (snd ?res) ?k ?lv = Some v"
    using g4 g5 e1
    by (cases "process_device pyfloat device e1")
      (auto simp: res for_each_append split: option.splits)
  moreover have "declared (snd ?res)"
    using assms(1) by (rule declared_snd [OF cellwise_process])
  from declared_realpower [OF this]
  have "map_option metric_name (device_metrics (snd ?res) ?k) = Some ''pdu_realpower''"
    by auto
  ultimately show ?thesis by simp
qed

theorem realpower_published_witness:
  "device_gauge (snd (process decimal_float
      (Returns (WellFormed (document [foo_field, realpower_field, outlets_of [outlet_no_amps]])))
      (init_exporter :: real exporter))) ''RealPower-A'' [''1'', ''pdu''] = Some 123.4
   \<and> map_option metric_name (device_metrics (snd (process decimal_float
      (Returns (WellFormed (document [foo_field, realpower_field, outlets_of [outlet_no_amps]])))
      (init_exporter :: real exporter))) ''RealPower-A'') = Some ''pdu_realpower''"
proof -
  have before: "fst (for_each (device_child decimal_float [(''id'', ''1''), (''type'', ''pdu'')])
      [foo_field] (init_exporter :: real exporter)) = None"
    by (simp add: device_child_def foo_field_def init_exporter_def)
  have outlets: "find_elem ''outlets''
      (device_of [foo_field, realpower_field, outlets_of [outlet_no_amps]]) =
      Some (outlets_of [outlet_no_amps])"
    by (simp add: find_elem_def device_of_def foo_field_def realpower_field_def outlets_of_def)
  have devices: "find_elem ''devices''
      (document [foo_field, realpower_field, outlets_of [outlet_no_amps]]) =
      Some (Element ''devices'' []
        [device_of [foo_field, realpower_field, outlets_of [outlet_no_amps]]])"
    by (simp add: find_elem_def document_def)
  from realpower_published [of "init_exporter :: real exporter"
      "document [foo_field, realpower_field, outlets_of [outlet_no_amps]]"
      "Element ''devices'' [] [device_of [foo_field, realpower_field, outlets_of [outlet_no_amps]]]"
      "[]" "device_of [foo_field, realpower_field, outlets_of [outlet_no_amps]]" "[]"
      decimal_float "outlets_of [outlet_no_amps]" "[foo_field]" realpower_field
      "[outlets_of [outlet_no_amps]]" "123.4"] before outlets devices
  show ?thesis
    by (simp add: declared_init device_of_def outlets_of_def realpower_field_def
        decimal_float_samples)
qed

theorem realpower_counterexample:
  "decimal_float ''123.4'' = Some 123.4
   \<and> device_gauge (snd (process decimal_float
        (Returns (WellFormed (document [realpower_field, outlets_of []])))
        (init_exporter :: real exporter))) ''RealPower-A'' [''1'', ''pdu''] = None"
  by (simp add: eval_defs decimal_float_samples)

text \<open>
  C7. Processing the same document twice in succession leaves the instruments as
  processing it once does: every instrument has, for every label set, the value it had
  after the first run. This holds for every outcome of the fetch and every state, also
  when the run ends in an exception.
\<close>

theorem process_twice:
  "instruments (snd (process pyfloat http (snd (process pyfloat http e)))) =
   instruments (snd (process pyfloat http e))"
  by (rule cellwise_idem [OF cellwise_process refl])

theorem process_twice_witness:
  "instruments (snd (process decimal_float
       (Returns (WellFormed (document [realpower_field, outlets_of [outlet_A, outlet_no_amps]])))
       (snd (process decimal_float
          (Returns (WellFormed (document [realpower_field, outlets_of [outlet_A, outlet_no_amps]])))
          (init_exporter :: real exporter))))) =
   instruments (snd (process decimal_float
       (Returns (WellFormed (document [realpower_field, outlets_of [outlet_A, outlet_no_amps]])))
       (init_exporter :: real exporter)))"
  by (rule process_twice)



text \<open>
  C9. The instruments declared at startup never change: after \<^verbatim>\<open>process\<close>, and after any
  number of cycles of the polling loop, the dictionaries have the same keys and every
  metric its name, documentation, label names and states. A \<^verbatim>\<open>field\<close> whose key is not
  one of the ten recognized keys is ignored: the loop body returns without error and
  leaves the exporter as it was.
\<close>

theorem instruments_fixed:
  "shape (snd (process pyfloat http e)) = shape e
   \<and> shape (snd (start_export_loop pyfloat cycles e)) = shape e
   \<and> (declared e \<and> tag child = ''field'' \<and> map_of (attrib child) ''key'' = Some key
        \<and> key \<notin> {''KWatt-hrs-Total'', ''KWatt-hrs-A'', ''RealPower-Total'', ''RealPower-A'',
                    ''Volts-A'', ''Volt-Pk-A'', ''Amps-A'', ''Amps-Pk-A'', ''ApPower-A'',
                    ''Pwr-Factor%-A''}
      \<longrightarrow> device_child pyfloat dl child e = (None, e))"
proof (intro conjI impI)
  show "shape (snd (process pyfloat http e)) = shape e"
    by (rule cellwise_shape [OF cellwise_process refl])
  show "shape (snd (start_export_loop pyfloat cycles e)) = shape e"
    by (rule shape_start_export_loop)
next
  assume a: "declared e \<and> tag child = ''field'' \<and> map_of (attrib child) ''key'' = Some key
        \<and> key \<notin> {''KWatt-hrs-Total'', ''KWatt-hrs-A'', ''RealPower-Total'', ''RealPower-A'',
                    ''Volts-A'', ''Volt-Pk-A'', ''Amps-A'', ''Amps-Pk-A'', ''ApPower-A'',
                    ''Pwr-Factor%-A''}"
  then have "map_option blank (device_metrics e key) = None"
    using declared_device_metrics [of e key] by (simp add: init_exporter_def)
  then have "device_metrics e key = None" by simp
  with a show "device_child pyfloat dl child e = (None, e)"
    by (simp add: device_child_def)
qed

theorem instruments_fixed_witness:
  "shape (snd (process decimal_float
       (Returns (WellFormed (document [foo_field, outlets_of [outlet_A]])))
       (init_exporter :: real exporter))) = shape (init_exporter :: real exporter)
   \<and> device_child decimal_float [(''id'', ''1''), (''type'', ''pdu'')] foo_field
        (init_exporter :: real exporter) = (None, init_exporter)"
  using instruments_fixed [of decimal_float
      "Returns (WellFormed (document [foo_field, outlets_of [outlet_A]]))"
      "init_exporter :: real exporter" "[]" foo_field "''Foo-Bar''"
      "[(''id'', ''1''), (''type'', ''pdu'')]"]
  by (simp add: declared_init foo_field_def)

text \<open>
  C10. A device whose \<^verbatim>\<open>outlets\<close> container is present but has no children is skipped as
  a whole: \<^verbatim>\<open>process_device\<close> returns after its log message, and no instrument, in
  particular no device gauge, is changed.
\<close>

theorem empty_outlets_skip_device:
  assumes "find_elem ''outlets'' device = Some outlets" and "children outlets = []"
  shows "process_device pyfloat device e =
           (case map_of (attrib device) ''type'' of
              None \<Rightarrow> (Some (KeyError ''type''), e)
            | Some t \<Rightarrow> (None, info (''Processsing device '' @ t) e))
         \<and> instruments (snd (process_device pyfloat device e)) = instruments e"
  using assms
  by (simp add: process_device_def element_bool_def instruments_info split: option.splits)

theorem empty_outlets_skip_device_witness:
  "process_device decimal_float (device_of [realpower_field, outlets_of []])
     (init_exporter :: real exporter) =
     (None, info ''Processsing device pdu'' init_exporter)
   \<and> device_gauge (snd (process_device decimal_float (device_of [realpower_field, outlets_of []])
        (init_exporter :: real exporter))) ''RealPower-A'' [''1'', ''pdu''] = None"
  using empty_outlets_skip_device [of "device_of [realpower_field, outlets_of []]" "outlets_of []"
      decimal_float "init_exporter :: real exporter"]
  by (simp add: device_of_def outlets_of_def find_elem_def realpower_field_def
      device_gauge_def info_def init_exporter_def Gauge_def)

end
